theory Spec2Isabelle
  imports Complex_Main "HOL-Library.Word"
begin

section \<open>JavaScript strings and their iteration\<close>

text \<open>
  A JavaScript string is a sequence of UTF-16 code units; \<open>alphabet.length\<close> counts code
  units.  \<open>for (const c of s)\<close> and \<open>s[Symbol.iterator]()\<close> walk the string by Unicode code
  point: a high surrogate followed by a low surrogate is yielded as one two-unit string,
  every other code unit as a one-unit string.
\<close>

type_synonym code_unit = "16 word"
type_synonym js_string = "code_unit list"
type_synonym byte = "8 word"

definition isHighSurrogate :: "code_unit \<Rightarrow> bool" where
  "isHighSurrogate u \<longleftrightarrow> 0xD800 \<le> u \<and> u \<le> 0xDBFF"

definition isLowSurrogate :: "code_unit \<Rightarrow> bool" where
  "isLowSurrogate u \<longleftrightarrow> 0xDC00 \<le> u \<and> u \<le> 0xDFFF"

fun stringIterator :: "js_string \<Rightarrow> js_string list" where
  "stringIterator [] = []"
| "stringIterator [u] = [[u]]"
| "stringIterator (u # v # rest) =
     (if isHighSurrogate u \<and> isLowSurrogate v then [u, v] # stringIterator rest
      else [u] # stringIterator (v # rest))"

section \<open>Glyphs, image data and the atlas canvas\<close>

datatype error = CannotBuildCanvas | CannotBuildContext | TypeError | IndexSizeError

type_synonym rgba = "byte \<times> byte \<times> byte \<times> byte"

text \<open>\<open>Color\<close> of the host engine: r, g, b in 0..255 and an alpha.\<close>
type_synonym color = "nat \<times> nat \<times> nat \<times> rat"

definition Color_Black :: color where
  "Color_Black = (0, 0, 0, 1)"

record SDFGlyph =
  data :: "byte list"
  width :: nat
  height :: nat
  glyphWidth :: nat
  glyphHeight :: nat
  glyphTop :: nat
  glyphLeft :: nat
  glyphAdvance :: rat

record ImageData =
  img_width :: nat
  img_height :: nat
  img_data :: "byte list"

text \<open>
  The canvas element: an identity (the renderer keys its tables by the element object),
  its size, and its pixels.  Pixels outside the bitmap read as transparent black.
\<close>
record HTMLCanvasElement =
  element_id :: nat
  canvas_width :: nat
  canvas_height :: nat
  pixels :: "nat \<times> nat \<Rightarrow> rgba"

text \<open>
  \<open>new ImageData(w, h)\<close> allocates \<open>4 * w * h\<close> zero bytes and throws an
  \<open>IndexSizeError\<close> when either side is zero.
\<close>
definition new_ImageData :: "nat \<Rightarrow> nat \<Rightarrow> error + ImageData" where
  "new_ImageData w h =
     (if w = 0 \<or> h = 0 then Inl IndexSizeError
      else Inr \<lparr>img_width = w, img_height = h, img_data = replicate (4 * w * h) 0\<rparr>)"

text \<open>
  \<open>SDFFont._makeRGBAImageData\<close>.  A write past the end of a typed array is ignored,
  which is what list update does out of range.
\<close>
definition rgba_step :: "byte list \<Rightarrow> nat \<Rightarrow> byte list \<Rightarrow> byte list" where
  "rgba_step alphaChannel i d =
     d[4 * i := alphaChannel ! i, 4 * i + 1 := alphaChannel ! i,
       4 * i + 2 := alphaChannel ! i, 4 * i + 3 := 255]"

definition makeRGBAImageData :: "byte list \<Rightarrow> nat \<Rightarrow> nat \<Rightarrow> error + ImageData" where
  "makeRGBAImageData alphaChannel w h =
     (case new_ImageData w h of
        Inl e \<Rightarrow> Inl e
      | Inr imageData \<Rightarrow>
          Inr (imageData\<lparr>img_data :=
                 fold (rgba_step alphaChannel) [0..<length alphaChannel] (img_data imageData)\<rparr>))"

definition image_pixel :: "ImageData \<Rightarrow> nat \<Rightarrow> nat \<Rightarrow> rgba" where
  "image_pixel img i j =
     (let k = 4 * (j * img_width img + i)
      in (img_data img ! k, img_data img ! (k + 1), img_data img ! (k + 2), img_data img ! (k + 3)))"

text \<open>
  \<open>CanvasRenderingContext2D.putImageData(img, x, y)\<close>: every pixel of the image that
  falls inside the canvas bitmap replaces the canvas pixel there; the rest is clipped.
\<close>
definition putImageData :: "HTMLCanvasElement \<Rightarrow> ImageData \<Rightarrow> nat \<Rightarrow> nat \<Rightarrow> HTMLCanvasElement" where
  "putImageData c img x y =
     c\<lparr>pixels := (\<lambda>(px, py).
          if x \<le> px \<and> px < x + img_width img \<and> y \<le> py \<and> py < y + img_height img
             \<and> px < canvas_width c \<and> py < canvas_height c
          then image_pixel img (px - x) (py - y)
          else pixels c (px, py))\<rparr>"

section \<open>SDFFont\<close>

record SDFFontOptions =
  opt_color :: "color option"
  opt_alphabet :: "js_string option"
  opt_fontSize :: "nat option"

record SDFFont =
  atlasCanvas :: HTMLCanvasElement
  glyphs :: "js_string \<rightharpoonup> SDFGlyph"
  glyphAtlasLocation :: "js_string \<rightharpoonup> nat \<times> nat"
  color :: color
  fontSize :: nat
  size_px :: nat
  buffer :: nat
  radius :: nat

text \<open>\<open>get gamma()\<close> and \<open>get halo()\<close>, over the rationals.\<close>
definition gamma :: "SDFFont \<Rightarrow> rat" where
  "gamma this = 2 * (14142 / 10000) / of_nat (fontSize this)"

definition halo :: "SDFFont \<Rightarrow> rat" where
  "halo this = 75 / 100"

text \<open>
  The module-level constant \<open>const fontSize = 100\<close> (main.ts, line 699).  The constructor
  declares no local of that name, so the bare identifier \<open>fontSize\<close> in its body
  (lines 129, 132, 135 and 144) is this constant.
\<close>
definition module_fontSize :: nat where
  "module_fontSize = 100"

definition default_alphabet :: js_string where
  "default_alphabet =
     [0xD83C, 0xDFB6, 0xD83C, 0xDF89, 0xD83C, 0xDF82, 0x2764, 0xFE0F, 0x25D1, 0xFE4F, 0x25D0,
      0x0020, 0x0061, 0x0062, 0x0063, 0x0064, 0x0065, 0x0066, 0x0067, 0x0068, 0x0069, 0x006A,
      0x006B, 0x006C, 0x006D, 0x006E, 0x006F, 0x0070, 0x0071, 0x0072, 0x0073, 0x0074, 0x0075,
      0x0076, 0x0077, 0x0078, 0x0079, 0x007A, 0x007E, 0x0021, 0x0040, 0x0023, 0x0024, 0x0025,
      0x005E, 0x0026, 0x002A, 0x0028, 0x0029, 0x003C, 0x003E, 0x003F, 0x0027, 0x0022, 0x003A,
      0x003B, 0x0041, 0x0042, 0x0043, 0x0044, 0x0045, 0x0046, 0x0047, 0x0048, 0x0049, 0x004A,
      0x004B, 0x004C, 0x004D, 0x004E, 0x004F, 0x0050, 0x0051, 0x0052, 0x0053, 0x0054, 0x0055,
      0x0056, 0x0057, 0x0058, 0x0059, 0x005A, 0x0031, 0x0032, 0x0033, 0x0034, 0x0035, 0x0036,
      0x0037, 0x0038, 0x0039, 0x0030, 0x007B, 0x007D, 0x005C, 0x007C]"

text \<open>\<open>Math.ceil(a / b)\<close> and \<open>Math.ceil(Math.sqrt(n))\<close> on non-negative integers.\<close>
definition ceil_div :: "nat \<Rightarrow> nat \<Rightarrow> nat" where
  "ceil_div a b = nat \<lceil>(of_nat a :: rat) / of_nat b\<rceil>"

definition ceil_sqrt :: "nat \<Rightarrow> nat" where
  "ceil_sqrt n = nat \<lceil>sqrt (real n)\<rceil>"

text \<open>
  The environment of the constructor: \<open>document.createElement('canvas')\<close> (the new
  element's identity, or nothing) and whether \<open>getContext('2d')\<close> yields a context.
\<close>
record environment =
  createElement_canvas :: "nat option"
  getContext_2d :: bool

text \<open>
  The external rasterizer: \<open>new TinySDF({fontSize, buffer, radius, ...}).draw(c)\<close>.
\<close>
type_synonym rasterizer = "nat \<Rightarrow> nat \<Rightarrow> nat \<Rightarrow> js_string \<Rightarrow> SDFGlyph"

text \<open>The first loop of the constructor (lines 153 to 155).\<close>
fun generate_glyphs :: "(js_string \<Rightarrow> SDFGlyph) \<Rightarrow> js_string list \<Rightarrow> SDFFont \<Rightarrow> SDFFont" where
  "generate_glyphs draw [] this = this"
| "generate_glyphs draw (codePoint # rest) this =
     generate_glyphs draw rest (this\<lparr>glyphs := (glyphs this)(codePoint \<mapsto> draw codePoint)\<rparr>)"

text \<open>
  The inner loop (lines 168 to 183), for the row at \<open>y\<close>.  The iterator is the list of
  code points not yet consumed; \<open>nextCodePoint.done\<close> is that list being empty.  The
  result is \<open>currentSize\<close>, \<open>maxHeight\<close>, the iterator and the font when the loop exits.
\<close>
fun row_loop ::
  "nat \<Rightarrow> nat \<Rightarrow> nat \<Rightarrow> nat \<Rightarrow> js_string list \<Rightarrow> SDFFont
     \<Rightarrow> error + (nat \<times> nat \<times> js_string list \<times> SDFFont)" where
  "row_loop y x currentSize maxHeight [] this = Inr (currentSize, maxHeight, [], this)"
| "row_loop y x currentSize maxHeight (codePoint # rest) this =
     (if x + currentSize \<le> canvas_width (atlasCanvas this) then
        (case glyphs this codePoint of
           None \<Rightarrow> Inl TypeError
         | Some glyph \<Rightarrow>
             (case makeRGBAImageData (data glyph) (width glyph) (height glyph) of
                Inl e \<Rightarrow> Inl e
              | Inr img \<Rightarrow>
                  row_loop y (x + width glyph) (width glyph) (max maxHeight (height glyph)) rest
                    (this\<lparr>atlasCanvas := putImageData (atlasCanvas this) img x y,
                          glyphAtlasLocation := (glyphAtlasLocation this)(codePoint \<mapsto> (x, y))\<rparr>)))
      else Inr (currentSize, maxHeight, codePoint # rest, this))"

text \<open>
  The outer loop (lines 166 to 184).  It need not terminate, so its result is an option:
  \<open>None\<close> is the loop running forever.
\<close>
partial_function (option) rows_loop ::
  "nat \<Rightarrow> nat \<Rightarrow> nat \<Rightarrow> js_string list \<Rightarrow> SDFFont \<Rightarrow> (error + SDFFont) option" where
  "rows_loop y currentSize maxHeight codePoints this =
     (if y + maxHeight \<le> canvas_height (atlasCanvas this) \<and> codePoints \<noteq> [] then
        (let r = row_loop y 0 currentSize 0 codePoints this in
         if isl r then Some (Inl (projl r))
         else rows_loop (y + fst (snd (projr r))) (fst (projr r)) (fst (snd (projr r)))
                (fst (snd (snd (projr r)))) (snd (snd (snd (projr r)))))
      else Some (Inr this))"

definition SDFFont_new :: "environment \<Rightarrow> rasterizer \<Rightarrow> SDFFontOptions \<Rightarrow> (error + SDFFont) option" where
  "SDFFont_new env tinySdf options =
     (case createElement_canvas env of
        None \<Rightarrow> Some (Inl CannotBuildCanvas)
      | Some elem \<Rightarrow>
          if \<not> getContext_2d env then Some (Inl CannotBuildContext)
          else
            let alphabet = (case opt_alphabet options of None \<Rightarrow> default_alphabet | Some a \<Rightarrow> a);
                buffer = ceil_div module_fontSize 8;
                radius = ceil_div module_fontSize 3;
                size = module_fontSize + buffer * 2;
                dimension = ceil_sqrt (length alphabet) * size;
                this0 = \<lparr>atlasCanvas = \<lparr>element_id = elem, canvas_width = dimension,
                                         canvas_height = dimension,
                                         pixels = (\<lambda>_. (0, 0, 0, 0))\<rparr>,
                         glyphs = Map.empty,
                         glyphAtlasLocation = Map.empty,
                         color = (case opt_color options of None \<Rightarrow> Color_Black | Some c \<Rightarrow> c),
                         fontSize = (case opt_fontSize options of None \<Rightarrow> 16 | Some s \<Rightarrow> s),
                         size_px = size, buffer = buffer, radius = radius\<rparr>;
                this1 = generate_glyphs (tinySdf module_fontSize buffer radius)
                          (stringIterator alphabet) this0;
                codePoints = stringIterator alphabet
            in if codePoints = [] then Some (Inr this1)
               else rows_loop 0 0 0 codePoints this1)"

text \<open>The image that \<open>_makeRGBAImageData\<close> returns when it does not throw.\<close>
definition rgba_image :: "byte list \<Rightarrow> nat \<Rightarrow> nat \<Rightarrow> ImageData" where
  "rgba_image d w h = projr (makeRGBAImageData d w h)"

section \<open>SDFTextRenderer\<close>

text \<open>
  A \<open>WebGLTexture\<close> handle.  The context's texture loader keeps one texture per image
  element, so the texture of an img is identified with the element.
\<close>
type_synonym texture = nat

definition textureLoader_load :: "HTMLCanvasElement \<Rightarrow> texture" where
  "textureLoader_load img = element_id img"

text \<open>
  The vertex data of one quad (36 floats in the source: four vertices of position, uv,
  texture index and colour).  The screen positions, which go through the context's
  floating-point transform, are left out.  \<open>q_char\<close> and \<open>q_image\<close> are not in the buffer:
  they record which character of which atlas image the quad was generated for.
\<close>
record quad =
  q_uv :: "rat \<times> rat \<times> rat \<times> rat"
  q_textureId :: int
  q_color :: color
  q_char :: js_string
  q_image :: nat

text \<open>
  One \<open>gl.drawElements\<close> call issued by \<open>flush\<close>: the quads uploaded, the texture bound to
  every unit by \<open>_bindTextures\<close> (nothing where \<open>this._textures[i] || this._textures[0]\<close> is
  undefined), and the two uniforms.
\<close>
record submission =
  sub_quads :: "quad option list"
  sub_textures :: "texture option list"
  sub_gamma :: rat
  sub_halo :: rat

text \<open>
  The renderer's fields.  \<open>vertexBuffer\<close> is the \<open>Float32Array\<close> of \<open>9 * 4 * maxImages\<close> floats,
  read in slots of 36 floats: slot \<open>k\<close> holds the quad written at \<open>_vertexIndex = 36 * k\<close>.
  \<open>drawCalls\<close> is the list of draw calls issued so far, oldest first.
\<close>
record SDFTextRenderer =
  maxImages :: nat
  imageCount :: nat
  maxTextures :: nat
  textures :: "texture list"
  textureIndex :: nat
  textureToIndex :: "texture \<rightharpoonup> nat"
  images :: "nat set"
  vertexIndex :: nat
  vertexBuffer :: "nat \<Rightarrow> quad option"
  imageToWidth :: "nat \<rightharpoonup> nat"
  imageToHeight :: "nat \<rightharpoonup> nat"
  sdfGamma :: rat
  sdfHalo :: rat
  drawCalls :: "submission list"

record WebGL2RenderingContext =
  MAX_TEXTURE_IMAGE_UNITS :: nat
  canCompile :: "nat \<Rightarrow> bool"

text \<open>
  \<open>getMaxShaderComplexity\<close>: the do-while loop halves \<open>numIfs\<close> until the test shader
  with that many branches compiles.
\<close>
partial_function (option) getMaxShaderComplexity :: "WebGL2RenderingContext \<Rightarrow> nat \<Rightarrow> nat option" where
  "getMaxShaderComplexity gl numIfs =
     (if canCompile gl numIfs then Some numIfs else getMaxShaderComplexity gl (numIfs div 2))"

text \<open>The renderer after its field initialisers, with \<open>_maxTextures\<close> as given.\<close>
definition SDFTextRenderer_new :: "nat \<Rightarrow> SDFTextRenderer" where
  "SDFTextRenderer_new maxTex =
     \<lparr>maxImages = 10922, imageCount = 0, maxTextures = maxTex, textures = [], textureIndex = 0,
      textureToIndex = Map.empty, images = {}, vertexIndex = 0, vertexBuffer = (\<lambda>_. None),
      imageToWidth = Map.empty, imageToHeight = Map.empty,
      sdfGamma = 2 * (14142 / 10000) / 16, sdfHalo = 75 / 100, drawCalls = []\<rparr>"

definition initialize :: "WebGL2RenderingContext \<Rightarrow> SDFTextRenderer option" where
  "initialize gl =
     (let maxTexture = MAX_TEXTURE_IMAGE_UNITS gl in
      case getMaxShaderComplexity gl maxTexture of
        None \<Rightarrow> None
      | Some maxComplexity \<Rightarrow> Some (SDFTextRenderer_new (min maxTexture maxComplexity)))"

definition addImageAsTexture :: "HTMLCanvasElement \<Rightarrow> SDFTextRenderer \<Rightarrow> SDFTextRenderer" where
  "addImageAsTexture img this =
     (if element_id img \<in> images this then this
      else let texture = textureLoader_load img in
        if texture \<notin> set (textures this) then
          this\<lparr>textures := textures this @ [texture],
               textureToIndex := (textureToIndex this)(texture \<mapsto> textureIndex this),
               textureIndex := textureIndex this + 1,
               images := insert (element_id img) (images this)\<rparr>
        else this)"

definition bindTextures :: "SDFTextRenderer \<Rightarrow> texture option list" where
  "bindTextures this =
     map (\<lambda>i. if i < length (textures this) then Some (textures this ! i)
               else if textures this \<noteq> [] then Some (textures this ! 0) else None)
       [0..<maxTextures this]"

definition getTextureIdForImage :: "HTMLCanvasElement \<Rightarrow> SDFTextRenderer \<Rightarrow> int" where
  "getTextureIdForImage img this =
     (case textureToIndex this (textureLoader_load img) of None \<Rightarrow> - 1 | Some i \<Rightarrow> int i)"

definition isFull :: "SDFTextRenderer \<Rightarrow> bool" where
  "isFull this \<longleftrightarrow>
     (if imageCount this \<ge> maxImages this then True
      else if length (textures this) \<ge> maxTextures this then True
      else False)"

definition getImageWidth :: "HTMLCanvasElement \<Rightarrow> SDFTextRenderer \<Rightarrow> nat \<times> SDFTextRenderer" where
  "getImageWidth img this =
     (case imageToWidth this (element_id img) of
        None \<Rightarrow> (canvas_width img,
                  this\<lparr>imageToWidth := (imageToWidth this)(element_id img \<mapsto> canvas_width img)\<rparr>)
      | Some maybeWidth \<Rightarrow> (maybeWidth, this))"

definition getImageHeight :: "HTMLCanvasElement \<Rightarrow> SDFTextRenderer \<Rightarrow> nat \<times> SDFTextRenderer" where
  "getImageHeight img this =
     (case imageToHeight this (element_id img) of
        None \<Rightarrow> (canvas_height img,
                  this\<lparr>imageToHeight := (imageToHeight this)(element_id img \<mapsto> canvas_height img)\<rparr>)
      | Some maybeHeight \<Rightarrow> (maybeHeight, this))"

definition flush :: "SDFTextRenderer \<Rightarrow> SDFTextRenderer" where
  "flush this =
     (if imageCount this = 0 then this
      else this\<lparr>drawCalls := drawCalls this @
                  [\<lparr>sub_quads = map (vertexBuffer this) [0..<imageCount this],
                    sub_textures = bindTextures this,
                    sub_gamma = sdfGamma this, sub_halo = sdfHalo this\<rparr>],
                imageCount := 0, vertexIndex := 0, textures := [], textureIndex := 0,
                textureToIndex := Map.empty, images := {},
                imageToWidth := Map.empty, imageToHeight := Map.empty\<rparr>)"

text \<open>
  The 36 writes \<open>vertexBuffer[this._vertexIndex++] = ...\<close> of one quad.  A write past the
  end of the typed array is ignored.
\<close>
definition write_quad :: "quad \<Rightarrow> SDFTextRenderer \<Rightarrow> SDFTextRenderer" where
  "write_quad q this =
     this\<lparr>vertexBuffer :=
            (if vertexIndex this + 36 \<le> 9 * 4 * maxImages this
             then (vertexBuffer this)(vertexIndex this div 36 := Some q)
             else vertexBuffer this),
          vertexIndex := vertexIndex this + 36\<rparr>"

text \<open>One iteration of the loop over the text in \<open>draw\<close> (lines 503 to 605).\<close>
definition draw_char ::
  "SDFFont \<Rightarrow> color \<Rightarrow> nat \<Rightarrow> nat \<Rightarrow> int \<Rightarrow> js_string \<Rightarrow> SDFTextRenderer \<Rightarrow> SDFTextRenderer" where
  "draw_char font col imageWidth imageHeight textureId char this =
     (let this1 = (if isFull this then flush this else this) in
      case glyphs font char of
        None \<Rightarrow> this1
      | Some glyph \<Rightarrow>
          (case glyphAtlasLocation font char of
             None \<Rightarrow> this1
           | Some (sx, sy) \<Rightarrow>
               let sw = width glyph; sh = height glyph;
                   this2 = this1\<lparr>imageCount := imageCount this1 + 1\<rparr>;
                   uvx0 = of_nat sx / of_nat imageWidth;
                   uvy0 = of_nat sy / of_nat imageHeight;
                   uvx1 = of_nat (sx + sw) / of_nat imageWidth;
                   uvy1 = of_nat (sy + sh) / of_nat imageHeight
               in write_quad \<lparr>q_uv = (uvx0, uvy0, uvx1, uvy1), q_textureId = textureId,
                               q_color = col, q_char = char,
                               q_image = element_id (atlasCanvas font)\<rparr> this2))"

fun draw_loop ::
  "SDFFont \<Rightarrow> color \<Rightarrow> nat \<Rightarrow> nat \<Rightarrow> int \<Rightarrow> js_string list \<Rightarrow> SDFTextRenderer \<Rightarrow> SDFTextRenderer" where
  "draw_loop font col imageWidth imageHeight textureId [] this = this"
| "draw_loop font col imageWidth imageHeight textureId (char # rest) this =
     draw_loop font col imageWidth imageHeight textureId rest
       (draw_char font col imageWidth imageHeight textureId char this)"

definition draw :: "SDFFont \<Rightarrow> js_string \<Rightarrow> color option \<Rightarrow> SDFTextRenderer \<Rightarrow> SDFTextRenderer" where
  "draw font text col this =
     (let this1 = (if isFull this then flush this else this);
          this2 = (if sdfGamma this1 \<noteq> gamma font \<or> sdfHalo this1 \<noteq> halo font
                   then (flush this1)\<lparr>sdfGamma := gamma font, sdfHalo := halo font\<rparr>
                   else this1);
          col' = (case col of None \<Rightarrow> color font | Some c \<Rightarrow> c);
          this3 = addImageAsTexture (atlasCanvas font) this2;
          (maybeImageWidth, this4) = getImageWidth (atlasCanvas font) this3;
          (maybeImageHeight, this5) = getImageHeight (atlasCanvas font) this4;
          textureId = getTextureIdForImage (atlasCanvas font) this5
      in draw_loop font col' maybeImageWidth maybeImageHeight textureId (stringIterator text) this5)"

text \<open>A sequence of calls on the renderer.\<close>
datatype call = Draw SDFFont js_string "color option" | Flush

fun do_call :: "call \<Rightarrow> SDFTextRenderer \<Rightarrow> SDFTextRenderer" where
  "do_call (Draw font text col) this = draw font text col this"
| "do_call Flush this = flush this"

definition run_calls :: "call list \<Rightarrow> SDFTextRenderer \<Rightarrow> SDFTextRenderer" where
  "run_calls calls this = fold do_call calls this"

text \<open>
  Every quad the renderer has been handed so far, in order: those of the draw calls
  issued, then those pending in the buffer.
\<close>
definition emitted :: "SDFTextRenderer \<Rightarrow> quad option list" where
  "emitted this =
     concat (map sub_quads (drawCalls this)) @ map (vertexBuffer this) [0..<imageCount this]"

text \<open>A character of the text that \<open>draw\<close> does not skip (line 509).\<close>
definition present :: "SDFFont \<Rightarrow> js_string \<Rightarrow> bool" where
  "present font char \<longleftrightarrow> glyphs font char \<noteq> None \<and> glyphAtlasLocation font char \<noteq> None"


section \<open>Auxiliary definitions for the statements\<close>


text \<open>The quad that \<open>draw_char\<close> writes for a character the font has.\<close>
definition quad_for :: "SDFFont \<Rightarrow> color \<Rightarrow> nat \<Rightarrow> nat \<Rightarrow> int \<Rightarrow> js_string \<Rightarrow> quad" where
  "quad_for font col imageWidth imageHeight textureId char =
     (let glyph = the (glyphs font char); (sx, sy) = the (glyphAtlasLocation font char) in
      \<lparr>q_uv = (of_nat sx / of_nat imageWidth, of_nat sy / of_nat imageHeight,
               of_nat (sx + width glyph) / of_nat imageWidth,
               of_nat (sy + height glyph) / of_nat imageHeight),
        q_textureId = textureId, q_color = col, q_char = char,
        q_image = element_id (atlasCanvas font)\<rparr>)"

text \<open>Which character of which atlas a buffer slot holds.\<close>
definition quad_key :: "quad option \<Rightarrow> (nat \<times> js_string) option" where
  "quad_key = map_option (\<lambda>q. (q_image q, q_char q))"

text \<open>The fields of a font that the packing loop leaves alone.\<close>
definition static_eq :: "SDFFont \<Rightarrow> SDFFont \<Rightarrow> bool" where
  "static_eq this this' \<longleftrightarrow>
     glyphs this' = glyphs this
     \<and> element_id (atlasCanvas this') = element_id (atlasCanvas this)
     \<and> canvas_width (atlasCanvas this') = canvas_width (atlasCanvas this)
     \<and> canvas_height (atlasCanvas this') = canvas_height (atlasCanvas this)
     \<and> color this' = color this \<and> fontSize this' = fontSize this
     \<and> size_px this' = size_px this \<and> buffer this' = buffer this \<and> radius this' = radius this"

text \<open>\<open>options.alphabet ?? default\<close>, and the font as it enters the packing loop (line 159).\<close>
definition alphabet_of :: "SDFFontOptions \<Rightarrow> js_string" where
  "alphabet_of options = (case opt_alphabet options of None \<Rightarrow> default_alphabet | Some a \<Rightarrow> a)"

definition font_before_packing :: "nat \<Rightarrow> rasterizer \<Rightarrow> SDFFontOptions \<Rightarrow> SDFFont" where
  "font_before_packing elem tinySdf options =
     generate_glyphs (tinySdf module_fontSize (ceil_div module_fontSize 8) (ceil_div module_fontSize 3))
       (stringIterator (alphabet_of options))
       \<lparr>atlasCanvas =
          \<lparr>element_id = elem,
           canvas_width = ceil_sqrt (length (alphabet_of options))
                            * (module_fontSize + ceil_div module_fontSize 8 * 2),
           canvas_height = ceil_sqrt (length (alphabet_of options))
                            * (module_fontSize + ceil_div module_fontSize 8 * 2),
           pixels = (\<lambda>_. (0, 0, 0, 0))\<rparr>,
        glyphs = Map.empty,
        glyphAtlasLocation = Map.empty,
        color = (case opt_color options of None \<Rightarrow> Color_Black | Some c \<Rightarrow> c),
        fontSize = (case opt_fontSize options of None \<Rightarrow> 16 | Some s \<Rightarrow> s),
        size_px = module_fontSize + ceil_div module_fontSize 8 * 2,
        buffer = ceil_div module_fontSize 8, radius = ceil_div module_fontSize 3\<rparr>"

text \<open>Every code point of the list has a glyph, and its bitmap has no empty side.\<close>
definition glyphs_drawable :: "SDFFont \<Rightarrow> js_string list \<Rightarrow> bool" where
  "glyphs_drawable this cps \<longleftrightarrow>
     list_all (\<lambda>c. case glyphs this c of None \<Rightarrow> False
                   | Some g \<Rightarrow> 0 < width g \<and> 0 < height g) cps"

text \<open>
  What holds of the atlas while the row at \<open>y\<close> is being filled up to \<open>x\<close>, with \<open>mh\<close> the
  height of the row so far: every glyph that has a location lies above the row or in
  it left of \<open>x\<close>, and the part of its rectangle that is inside the canvas holds the
  pixels of its image.
\<close>
definition atlas_inv :: "nat \<Rightarrow> nat \<Rightarrow> nat \<Rightarrow> SDFFont \<Rightarrow> bool" where
  "atlas_inv y x mh this \<longleftrightarrow>
     (\<forall>c px py g. glyphAtlasLocation this c = Some (px, py) \<longrightarrow> glyphs this c = Some g \<longrightarrow>
        (py + height g \<le> y \<or> (py = y \<and> px + width g \<le> x \<and> height g \<le> mh))
        \<and> (\<forall>i j. i < width g \<longrightarrow> j < height g \<longrightarrow>
               px + i < canvas_width (atlasCanvas this) \<longrightarrow>
               py + j < canvas_height (atlasCanvas this) \<longrightarrow>
               pixels (atlasCanvas this) (px + i, py + j) =
                 image_pixel (rgba_image (data g) (width g) (height g)) i j))"

text \<open>
  The rectangles of two glyphs placed at \<open>p1\<close> and \<open>p2\<close> do not overlap; and no two code
  points of a font have overlapping rectangles.
\<close>
definition rects_disjoint :: "nat \<times> nat \<Rightarrow> SDFGlyph \<Rightarrow> nat \<times> nat \<Rightarrow> SDFGlyph \<Rightarrow> bool" where
  "rects_disjoint p1 g1 p2 g2 \<longleftrightarrow>
     fst p1 + width g1 \<le> fst p2 \<or> fst p2 + width g2 \<le> fst p1
     \<or> snd p1 + height g1 \<le> snd p2 \<or> snd p2 + height g2 \<le> snd p1"

definition disjoint_inv :: "SDFFont \<Rightarrow> bool" where
  "disjoint_inv this \<longleftrightarrow>
     (\<forall>c1 c2 p1 p2 g1 g2. c1 \<noteq> c2 \<longrightarrow>
        glyphAtlasLocation this c1 = Some p1 \<longrightarrow> glyphAtlasLocation this c2 = Some p2 \<longrightarrow>
        glyphs this c1 = Some g1 \<longrightarrow> glyphs this c2 = Some g2 \<longrightarrow>
        rects_disjoint p1 g1 p2 g2)"


section \<open>Concrete inputs\<close>

text \<open>A glyph of the given bitmap size, every distance byte 128.\<close>
definition test_glyph :: "nat \<Rightarrow> nat \<Rightarrow> SDFGlyph" where
  "test_glyph w h =
     \<lparr>data = replicate (w * h) 128, width = w, height = h, glyphWidth = w, glyphHeight = h,
      glyphTop = 0, glyphLeft = 0, glyphAdvance = of_nat w\<rparr>"

definition test_env :: environment where
  "test_env = \<lparr>createElement_canvas = Some 1, getContext_2d = True\<rparr>"

text \<open>
  Rasterizers: all glyphs 20 by 20; all 130 by 130; all 165 by 100, the widest bitmap
  TinySDF gives at font size 100 and buffer 13; W wide, the rest narrow.
\<close>
definition small_tinySdf :: rasterizer where
  "small_tinySdf fs b r c = test_glyph 20 20"

definition big_tinySdf :: rasterizer where
  "big_tinySdf fs b r c = test_glyph 130 130"


definition mixed_tinySdf :: rasterizer where
  "mixed_tinySdf fs b r c = (if c = [0x57] then test_glyph 100 40 else test_glyph 40 40)"

text \<open>
  A font of size 16 whose atlas is the canvas element \<open>i\<close> and whose only glyph is
  \<open>a\<close>, placed at the origin.
\<close>
definition atlas_font :: "nat \<Rightarrow> SDFFont" where
  "atlas_font i =
     \<lparr>atlasCanvas = \<lparr>element_id = i, canvas_width = 126, canvas_height = 126,
                      pixels = (\<lambda>_. (0, 0, 0, 0))\<rparr>,
      glyphs = [[0x61] \<mapsto> test_glyph 20 20], glyphAtlasLocation = [[0x61] \<mapsto> (0, 0)],
      color = Color_Black, fontSize = 16, size_px = 126, buffer = 13, radius = 34\<rparr>"


section \<open>Basic facts\<close>

lemma ceil_div_eq: "q * b < a \<Longrightarrow> a \<le> Suc q * b \<Longrightarrow> ceil_div a b = Suc q"
proof -
  assume a: "q * b < a" and b: "a \<le> Suc q * b"
  have bpos: "0 < b" using a b by (cases b) auto
  have "(of_nat (q * b) :: rat) < of_nat a" using a by (simp only: of_nat_less_iff)
  then have 1: "(of_nat q :: rat) < of_nat a / of_nat b"
    using bpos by (simp add: pos_less_divide_eq)
  have "(of_nat a :: rat) \<le> of_nat (Suc q * b)" using b by (simp only: of_nat_le_iff)
  then have 2: "(of_nat a :: rat) / of_nat b \<le> of_nat (Suc q)"
    using bpos by (simp add: pos_divide_le_eq algebra_simps)
  have "\<lceil>(of_nat a :: rat) / of_nat b\<rceil> = int (Suc q)"
    using 1 2 by (intro ceiling_unique) auto
  then show ?thesis by (simp add: ceil_div_def)
qed

lemma ceil_sqrt_eq: "k * k < n \<Longrightarrow> n \<le> Suc k * Suc k \<Longrightarrow> ceil_sqrt n = Suc k"
proof -
  assume a: "k * k < n" and b: "n \<le> Suc k * Suc k"
  have "real k < sqrt (real n)"
    using a by (metis of_nat_less_iff of_nat_mult real_less_rsqrt power2_eq_square)
  moreover have "sqrt (real n) \<le> real (Suc k)"
    using b by (metis of_nat_le_iff of_nat_mult real_le_lsqrt power2_eq_square of_nat_0_le_iff)
  ultimately have "\<lceil>sqrt (real n)\<rceil> = int (Suc k)"
    by (intro ceiling_unique) auto
  then show ?thesis by (simp add: ceil_sqrt_def)
qed

lemma buffer_value: "ceil_div module_fontSize 8 = 13" "ceil_div 100 8 = 13"
  by (simp_all add: module_fontSize_def ceil_div_eq [of 12])

lemma radius_value: "ceil_div module_fontSize 3 = 34" "ceil_div 100 3 = 34"
  by (simp_all add: module_fontSize_def ceil_div_eq [of 33])

lemma putImageData_fields [simp]:
  "canvas_width (putImageData c img x y) = canvas_width c"
  "canvas_height (putImageData c img x y) = canvas_height c"
  "element_id (putImageData c img x y) = element_id c"
  by (simp_all add: putImageData_def)

lemma makeRGBAImageData_pos:
  "0 < w \<Longrightarrow> 0 < h \<Longrightarrow> makeRGBAImageData d w h = Inr (rgba_image d w h)"
  by (simp add: makeRGBAImageData_def new_ImageData_def rgba_image_def)

lemma makeRGBAImageData_zero:
  "w = 0 \<or> h = 0 \<Longrightarrow> makeRGBAImageData d w h = Inl IndexSizeError"
  by (auto simp: makeRGBAImageData_def new_ImageData_def)

lemma rows_loop_exit:
  "\<not> (y + maxHeight \<le> canvas_height (atlasCanvas this) \<and> codePoints \<noteq> []) \<Longrightarrow>
     rows_loop y currentSize maxHeight codePoints this = Some (Inr this)"
  by (subst rows_loop.simps) auto

lemma rows_loop_step:
  "y + maxHeight \<le> canvas_height (atlasCanvas this) \<Longrightarrow> codePoints \<noteq> [] \<Longrightarrow>
     rows_loop y currentSize maxHeight codePoints this =
       (case row_loop y 0 currentSize 0 codePoints this of
          Inl e \<Rightarrow> Some (Inl e)
        | Inr (currentSize', maxHeight', codePoints', this') \<Rightarrow>
            rows_loop (y + maxHeight') currentSize' maxHeight' codePoints' this')"
  by (subst rows_loop.simps) (simp add: Let_def split: sum.splits prod.splits)

lemmas eval_font =
  SDFFont_new_def test_env_def test_glyph_def makeRGBAImageData_pos rows_loop_step rows_loop_exit
  isHighSurrogate_def isLowSurrogate_def buffer_value radius_value module_fontSize_def Let_def

lemmas eval_draw =
  run_calls_def draw_def draw_char_def write_quad_def flush_def isFull_def
  addImageAsTexture_def getImageWidth_def getImageHeight_def getTextureIdForImage_def
  textureLoader_load_def bindTextures_def SDFTextRenderer_new_def atlas_font_def test_glyph_def
  gamma_def halo_def isHighSurrogate_def isLowSurrogate_def Let_def

section \<open>The constructor and its loops\<close>

lemma static_eq_refl [simp]: "static_eq this this"
  by (simp add: static_eq_def)

lemma static_eq_trans: "static_eq a b \<Longrightarrow> static_eq b c \<Longrightarrow> static_eq a c"
  by (simp add: static_eq_def)

lemma stringIterator_elem:
  "c \<in> set (stringIterator s) \<Longrightarrow>
     (\<exists>u. c = [u]) \<or> (\<exists>h l. c = [h, l] \<and> isHighSurrogate h \<and> isLowSurrogate l)"
  by (induction s rule: stringIterator.induct) (auto split: if_splits)

lemma stringIterator_code_point:
  "c \<in> set (stringIterator s) \<Longrightarrow> stringIterator c = [c]"
  using stringIterator_elem [of c s] by auto

lemma generate_glyphs_glyphs:
  "glyphs (generate_glyphs rast cps this) =
     (\<lambda>c. if c \<in> set cps then Some (rast c) else glyphs this c)"
  by (induction cps arbitrary: this) (auto simp: fun_eq_iff)

lemma generate_glyphs_frame:
  "atlasCanvas (generate_glyphs rast cps this) = atlasCanvas this"
  "glyphAtlasLocation (generate_glyphs rast cps this) = glyphAtlasLocation this"
  "color (generate_glyphs rast cps this) = color this"
  "fontSize (generate_glyphs rast cps this) = fontSize this"
  "size_px (generate_glyphs rast cps this) = size_px this"
  "buffer (generate_glyphs rast cps this) = buffer this"
  "radius (generate_glyphs rast cps this) = radius this"
  by (induction cps arbitrary: this) auto

text \<open>What one run of the inner loop does to the iterator and to the location table.\<close>
lemma row_loop_result:
  "row_loop y x cs mh cps this = Inr (cs', mh', cps', this') \<Longrightarrow>
     static_eq this this'
     \<and> (\<exists>n\<le>length cps. cps' = drop n cps
          \<and> dom (glyphAtlasLocation this') = dom (glyphAtlasLocation this) \<union> set (take n cps))"
proof (induction y x cs mh cps this rule: row_loop.induct)
  case (1 y x currentSize maxHeight this)
  then show ?case by auto
next
  case (2 y x currentSize maxHeight codePoint rest this)
  show ?case
  proof (cases "x + currentSize \<le> canvas_width (atlasCanvas this)")
    case False
    with "2.prems" show ?thesis by auto
  next
    case True
    from "2.prems" True obtain glyph where g: "glyphs this codePoint = Some glyph"
      by (auto split: option.splits)
    from "2.prems" True g obtain img where
      i: "makeRGBAImageData (data glyph) (width glyph) (height glyph) = Inr img"
      by (auto split: sum.splits)
    let ?this1 = "this\<lparr>atlasCanvas := putImageData (atlasCanvas this) img x y,
                          glyphAtlasLocation := (glyphAtlasLocation this)(codePoint \<mapsto> (x, y))\<rparr>"
    have rec: "row_loop y (x + width glyph) (width glyph) (max maxHeight (height glyph)) rest ?this1
        = Inr (cs', mh', cps', this')"
      using "2.prems" True g i by simp
    from "2.IH" [OF True g i rec] have st: "static_eq ?this1 this'"
      and ex: "\<exists>n\<le>length rest. cps' = drop n rest
          \<and> dom (glyphAtlasLocation this') = dom (glyphAtlasLocation ?this1) \<union> set (take n rest)"
      by blast+
    from ex obtain n where n: "n \<le> length rest" "cps' = drop n rest"
      and d: "dom (glyphAtlasLocation this') = dom (glyphAtlasLocation ?this1) \<union> set (take n rest)"
      by blast
    have "static_eq this this'" using st by (simp add: static_eq_def)
    moreover have "Suc n \<le> length (codePoint # rest)" using n by simp
    moreover have "cps' = drop (Suc n) (codePoint # rest)" using n by simp
    moreover have "dom (glyphAtlasLocation this') =
        dom (glyphAtlasLocation this) \<union> set (take (Suc n) (codePoint # rest))"
      using d by auto
    ultimately show ?thesis by blast
  qed
qed

lemma rows_loop_result:
  assumes "rows_loop y cs mh cps this = Some r"
  shows "\<forall>font. r = Inr font \<longrightarrow> static_eq this font
     \<and> (\<exists>n\<le>length cps.
           dom (glyphAtlasLocation font) = dom (glyphAtlasLocation this) \<union> set (take n cps))"
proof (rule rows_loop.raw_induct
    [where P = "\<lambda>y cs mh cps this r. \<forall>font. r = Inr font \<longrightarrow> static_eq this font
     \<and> (\<exists>n\<le>length cps.
           dom (glyphAtlasLocation font) = dom (glyphAtlasLocation this) \<union> set (take n cps))",
     OF _ assms], goal_cases)
  case (1 f y cs mh cps this r)
  show ?case
  proof (intro allI impI)
    fix font assume r: "r = Inr font"
    show "static_eq this font
     \<and> (\<exists>n\<le>length cps.
           dom (glyphAtlasLocation font) = dom (glyphAtlasLocation this) \<union> set (take n cps))"
    proof (cases "y + mh \<le> canvas_height (atlasCanvas this) \<and> cps \<noteq> []")
      case False
      with 1(2) r have "font = this" by auto
      then show ?thesis by (auto intro: exI [of _ 0])
    next
      case True
      show ?thesis
      proof (cases "row_loop y 0 cs 0 cps this")
        case (Inl e)
        with 1(2) True r show ?thesis by (simp add: Let_def)
      next
        case (Inr res)
        obtain cs' mh' cps' this' where res: "res = (cs', mh', cps', this')"
          by (cases res) auto
        from 1(2) True Inr res have "f (y + mh') cs' mh' cps' this' = Some r"
          by (simp add: Let_def)
        from 1(1) [OF this] r have st': "static_eq this' font"
          and ex': "\<exists>n'\<le>length cps'.
             dom (glyphAtlasLocation font) = dom (glyphAtlasLocation this') \<union> set (take n' cps')"
          by blast+
        from ex' obtain n' where n': "n' \<le> length cps'"
          and d': "dom (glyphAtlasLocation font) = dom (glyphAtlasLocation this') \<union> set (take n' cps')"
          by blast
        from row_loop_result [OF Inr [unfolded res]] have st: "static_eq this this'"
          and ex: "\<exists>n\<le>length cps. cps' = drop n cps
            \<and> dom (glyphAtlasLocation this') = dom (glyphAtlasLocation this) \<union> set (take n cps)"
          by blast+
        from ex obtain n where n: "n \<le> length cps" "cps' = drop n cps"
          and d: "dom (glyphAtlasLocation this') = dom (glyphAtlasLocation this) \<union> set (take n cps)"
          by blast
        have "set (take (n + n') cps) = set (take n cps) \<union> set (take n' (drop n cps))"
          by (simp add: take_add)
        then have "dom (glyphAtlasLocation font) =
            dom (glyphAtlasLocation this) \<union> set (take (n + n') cps)"
          using d d' n by auto
        moreover have "n + n' \<le> length cps" using n n' by simp
        ultimately show ?thesis using static_eq_trans [OF st st'] by blast
      qed
    qed
  qed
qed


lemma SDFFont_new_eq:
  "createElement_canvas env = Some elem \<Longrightarrow> getContext_2d env \<Longrightarrow>
     SDFFont_new env tinySdf options =
       rows_loop 0 0 0 (stringIterator (alphabet_of options))
         (font_before_packing elem tinySdf options)"
  by (simp add: SDFFont_new_def font_before_packing_def alphabet_of_def Let_def rows_loop_exit)

lemma SDFFont_new_Inr:
  assumes "SDFFont_new env tinySdf options = Some (Inr font)"
  obtains elem where "createElement_canvas env = Some elem" "getContext_2d env"
    "rows_loop 0 0 0 (stringIterator (alphabet_of options))
         (font_before_packing elem tinySdf options) = Some (Inr font)"
proof (cases "createElement_canvas env")
  case None
  with assms show ?thesis by (simp add: SDFFont_new_def)
next
  case (Some elem)
  show ?thesis
  proof (cases "getContext_2d env")
    case False
    with assms Some show ?thesis by (simp add: SDFFont_new_def)
  next
    case True
    with assms Some SDFFont_new_eq [OF Some True, of tinySdf options] that show ?thesis by simp
  qed
qed

lemma font_before_packing_glyphs:
  "glyphs (font_before_packing elem tinySdf options) =
     (\<lambda>c. if c \<in> set (stringIterator (alphabet_of options))
          then Some (tinySdf module_fontSize 13 34 c) else None)"
  by (auto simp: font_before_packing_def generate_glyphs_glyphs buffer_value radius_value fun_eq_iff)

lemma font_before_packing_fields:
  "glyphAtlasLocation (font_before_packing elem tinySdf options) = Map.empty"
  "buffer (font_before_packing elem tinySdf options) = 13"
  "radius (font_before_packing elem tinySdf options) = 34"
  "size_px (font_before_packing elem tinySdf options) = 126"
  "canvas_width (atlasCanvas (font_before_packing elem tinySdf options)) =
     ceil_sqrt (length (alphabet_of options)) * 126"
  "canvas_height (atlasCanvas (font_before_packing elem tinySdf options)) =
     ceil_sqrt (length (alphabet_of options)) * 126"
  "pixels (atlasCanvas (font_before_packing elem tinySdf options)) = (\<lambda>_. (0, 0, 0, 0))"
  "fontSize (font_before_packing elem tinySdf options) =
     (case opt_fontSize options of None \<Rightarrow> 16 | Some s \<Rightarrow> s)"
  by (simp_all add: font_before_packing_def generate_glyphs_glyphs generate_glyphs_frame
      buffer_value radius_value module_fontSize_def)

lemma row_loop_no_error:
  "glyphs_drawable this cps \<Longrightarrow> \<not> isl (row_loop y x cs mh cps this)"
proof (induction y x cs mh cps this rule: row_loop.induct)
  case (1 y x currentSize maxHeight this)
  then show ?case by simp
next
  case (2 y x currentSize maxHeight codePoint rest this)
  show ?case
  proof (cases "x + currentSize \<le> canvas_width (atlasCanvas this)")
    case False
    then show ?thesis by simp
  next
    case True
    from "2.prems" obtain glyph where g: "glyphs this codePoint = Some glyph"
      and pos: "0 < width glyph" "0 < height glyph"
      by (auto simp: glyphs_drawable_def split: option.splits)
    have i: "makeRGBAImageData (data glyph) (width glyph) (height glyph)
        = Inr (rgba_image (data glyph) (width glyph) (height glyph))"
      using pos by (rule makeRGBAImageData_pos)
    let ?this1 = "this\<lparr>atlasCanvas := putImageData (atlasCanvas this)
                            (rgba_image (data glyph) (width glyph) (height glyph)) x y,
                          glyphAtlasLocation := (glyphAtlasLocation this)(codePoint \<mapsto> (x, y))\<rparr>"
    have "glyphs_drawable ?this1 rest"
      using "2.prems" by (simp add: glyphs_drawable_def)
    from "2.IH" [OF True g i this] show ?thesis
      using True g i by simp
  qed
qed

lemma glyphs_drawable_drop:
  "glyphs_drawable this cps \<Longrightarrow> static_eq this this' \<Longrightarrow> glyphs_drawable this' (drop n cps)"
  by (auto simp: glyphs_drawable_def static_eq_def list_all_iff dest: in_set_dropD)

lemma rows_loop_no_error:
  assumes "rows_loop y cs mh cps this = Some r"
  shows "glyphs_drawable this cps \<longrightarrow> \<not> isl r"
proof (rule rows_loop.raw_induct
    [where P = "\<lambda>y cs mh cps this r. glyphs_drawable this cps \<longrightarrow> \<not> isl r", OF _ assms],
    goal_cases)
  case (1 f y cs mh cps this r)
  show ?case
  proof
    assume gd: "glyphs_drawable this cps"
    show "\<not> isl r"
    proof (cases "y + mh \<le> canvas_height (atlasCanvas this) \<and> cps \<noteq> []")
      case False
      with 1(2) show ?thesis by auto
    next
      case True
      from row_loop_no_error [OF gd, of y 0 cs 0] obtain res where
        Inr: "row_loop y 0 cs 0 cps this = Inr res"
        by (cases "row_loop y 0 cs 0 cps this") auto
      obtain cs' mh' cps' this' where res: "res = (cs', mh', cps', this')"
        by (cases res) auto
      from 1(2) True Inr res have call: "f (y + mh') cs' mh' cps' this' = Some r"
        by (simp add: Let_def)
      from row_loop_result [OF Inr [unfolded res]] obtain n where
        "static_eq this this'" "cps' = drop n cps"
        by blast
      then have "glyphs_drawable this' cps'"
        using gd glyphs_drawable_drop by blast
      with 1(1) [OF call] show ?thesis by simp
    qed
  qed
qed

section \<open>The derived parameters of a font\<close>

text \<open>
  Whatever the options, the buffer, the radius and the cell size of a constructed font
  are those of font size 100, and the canvas side counts the code units of the alphabet.
\<close>
lemma parameters_are_constant:
  assumes "SDFFont_new env tinySdf options = Some (Inr font)"
  shows "buffer font = 13 \<and> radius font = 34 \<and> size_px font = 126
     \<and> canvas_width (atlasCanvas font) = ceil_sqrt (length (alphabet_of options)) * 126
     \<and> canvas_height (atlasCanvas font) = ceil_sqrt (length (alphabet_of options)) * 126
     \<and> fontSize font = (case opt_fontSize options of None \<Rightarrow> 16 | Some s \<Rightarrow> s)"
proof -
  from assms(1) obtain elem where
    run: "rows_loop 0 0 0 (stringIterator (alphabet_of options))
         (font_before_packing elem tinySdf options) = Some (Inr font)"
    by (rule SDFFont_new_Inr)
  from rows_loop_result [OF run] have "static_eq (font_before_packing elem tinySdf options) font"
    by blast
  then show ?thesis by (simp add: static_eq_def font_before_packing_fields)
qed

text \<open>
  Claim C3.  The claim: a font constructed with font size \<open>S\<close> (\<open>options.fontSize\<close>, 16 when
  absent) has \<open>buffer = ceil(S/8)\<close>, \<open>radius = ceil(S/3)\<close>, cell size \<open>S + 2 * buffer\<close> and
  an atlas side of \<open>ceil(sqrt(alphabetSize)) * cellSize\<close>.  The constructor stores \<open>S\<close> in
  \<open>_fontSize\<close> but computes the three parameters from the module-level constant \<open>fontSize = 100\<close>:
  for the alphabet \<open>AB\<close> and \<open>options.fontSize = 16\<close> the font has font size 16, buffer 13,
  radius 34, cell size 126 and a canvas of side 252, where the claim gives 2, 6, 20 and 40.
\<close>
theorem parameters_ignore_options_fontSize:
  "\<exists>font. SDFFont_new test_env small_tinySdf
             \<lparr>opt_color = None, opt_alphabet = Some [0x41, 0x42], opt_fontSize = Some 16\<rparr>
           = Some (Inr font)
     \<and> fontSize font = 16 \<and> buffer font = 13 \<and> radius font = 34 \<and> size_px font = 126
     \<and> canvas_width (atlasCanvas font) = 252 \<and> canvas_height (atlasCanvas font) = 252
     \<and> buffer font \<noteq> ceil_div (fontSize font) 8"
  by (simp add: eval_font small_tinySdf_def ceil_sqrt_eq [of 1] ceil_div_eq [of 1])

section \<open>Termination of the packing loop\<close>











section \<open>An atlas too small for the alphabet\<close>

text \<open>
  The claim C2 as stated fails: for the alphabet \<open>AB\<close> (canvas side 252) and glyph bitmaps
  of 130 by 130, \<open>A\<close> is placed, neither the row nor the canvas has room for \<open>B\<close>, both
  loops exit, and the constructor returns the font normally with \<open>B\<close> in the glyph table
  and without an atlas location.
\<close>
theorem overflow_is_silent:
  "\<exists>font. SDFFont_new test_env big_tinySdf
             \<lparr>opt_color = None, opt_alphabet = Some [0x41, 0x42], opt_fontSize = None\<rparr>
           = Some (Inr font)
     \<and> canvas_width (atlasCanvas font) = 252 \<and> canvas_height (atlasCanvas font) = 252
     \<and> glyphAtlasLocation font [0x41] = Some (0, 0)
     \<and> glyphAtlasLocation font [0x42] = None
     \<and> map_option width (glyphs font [0x42]) = Some 130"
  by (simp add: eval_font big_tinySdf_def ceil_sqrt_eq [of 1])

text \<open>
  Claim C2, amended.  The constructor has no overflow error.  With a canvas, a 2D context
  and glyph bitmaps without an empty side, whenever it returns it returns a font, never
  an error; the glyph table holds every code point of the alphabet, and the code points
  that have an atlas location are a prefix of the alphabet in iteration order: the loop
  stops silently where the canvas is full and leaves the rest unplaced.
\<close>
theorem packing_places_a_prefix:
  assumes "createElement_canvas env \<noteq> None" and "getContext_2d env"
    and "\<forall>c. 0 < width (tinySdf module_fontSize 13 34 c) \<and> 0 < height (tinySdf module_fontSize 13 34 c)"
    and "SDFFont_new env tinySdf options = Some r"
  shows "\<exists>font n. r = Inr font
           \<and> dom (glyphAtlasLocation font) = set (take n (stringIterator (alphabet_of options)))
           \<and> dom (glyphs font) = set (stringIterator (alphabet_of options))"
proof -
  from assms(1) obtain elem where elem: "createElement_canvas env = Some elem" by auto
  let ?cps = "stringIterator (alphabet_of options)"
  let ?f0 = "font_before_packing elem tinySdf options"
  have run: "rows_loop 0 0 0 ?cps ?f0 = Some r"
    using assms(4) SDFFont_new_eq [OF elem assms(2), of tinySdf options] by simp
  have "glyphs_drawable ?f0 ?cps"
    using assms(3) by (simp add: glyphs_drawable_def font_before_packing_glyphs list_all_iff)
  with rows_loop_no_error [OF run] obtain font where r: "r = Inr font"
    by (cases r) auto
  from rows_loop_result [OF run] r have st: "static_eq ?f0 font"
    and ex: "\<exists>n\<le>length ?cps. dom (glyphAtlasLocation font) =
        dom (glyphAtlasLocation ?f0) \<union> set (take n ?cps)"
    by blast+
  from ex obtain n where "dom (glyphAtlasLocation font) = set (take n ?cps)"
    by (auto simp: font_before_packing_fields)
  moreover have "dom (glyphs font) = set ?cps"
    using st by (auto simp: static_eq_def font_before_packing_glyphs split: if_splits)
  ultimately show ?thesis using r by blast
qed

theorem packing_places_a_prefix_witness:
  "createElement_canvas test_env \<noteq> None \<and> getContext_2d test_env
   \<and> (\<forall>c. 0 < width (big_tinySdf module_fontSize 13 34 c)
          \<and> 0 < height (big_tinySdf module_fontSize 13 34 c))
   \<and> (\<exists>font n. SDFFont_new test_env big_tinySdf
             \<lparr>opt_color = None, opt_alphabet = Some [0x41, 0x42], opt_fontSize = None\<rparr>
           = Some (Inr font)
        \<and> dom (glyphAtlasLocation font) = set (take n [[0x41], [0x42]])
        \<and> dom (glyphs font) = {[0x41], [0x42]})"
proof -
  let ?opts = "\<lparr>opt_color = None, opt_alphabet = Some [0x41, 0x42], opt_fontSize = None\<rparr>"
  have h1: "createElement_canvas test_env \<noteq> None" and h2: "getContext_2d test_env"
    by (simp_all add: test_env_def)
  have h3: "\<forall>c. 0 < width (big_tinySdf module_fontSize 13 34 c)
          \<and> 0 < height (big_tinySdf module_fontSize 13 34 c)"
    by (simp add: big_tinySdf_def test_glyph_def)
  obtain r where h4: "SDFFont_new test_env big_tinySdf ?opts = Some r"
    by (simp add: eval_font big_tinySdf_def ceil_sqrt_eq [of 1])
  have cps: "stringIterator (alphabet_of ?opts) = [[0x41], [0x42]]"
    by (simp add: alphabet_of_def isHighSurrogate_def isLowSurrogate_def)
  from packing_places_a_prefix [OF h1 h2 h3 h4] h4 cps h1 h2 h3 show ?thesis
    by auto
qed

section \<open>Keys of the glyph table\<close>

text \<open>
  The claim C4 as stated fails: the string iterator walks code points, not extended
  graphemes.  The heart with a variation selector, U+2764 U+FE0F, is one character of two
  code units and two code points: the alphabet made of it gives two keys, the heart and
  the selector, each with its own glyph and atlas location, and the character itself is
  a key of neither table.
\<close>
theorem variation_selector_is_a_second_key:
  "stringIterator [0x2764, 0xFE0F] = [[0x2764], [0xFE0F]]
   \<and> (\<exists>font. SDFFont_new test_env small_tinySdf
             \<lparr>opt_color = None, opt_alphabet = Some [0x2764, 0xFE0F], opt_fontSize = None\<rparr>
           = Some (Inr font)
        \<and> glyphs font [0x2764, 0xFE0F] = None
        \<and> glyphAtlasLocation font [0x2764, 0xFE0F] = None
        \<and> glyphAtlasLocation font [0x2764] = Some (0, 0)
        \<and> glyphAtlasLocation font [0xFE0F] = Some (20, 0))"
  by (simp add: eval_font small_tinySdf_def ceil_sqrt_eq [of 1])

text \<open>A code point outside the basic plane, two code units, is one key.\<close>
lemma surrogate_pair_is_one_key:
  "isHighSurrogate h \<Longrightarrow> isLowSurrogate l \<Longrightarrow> stringIterator [h, l] = [[h, l]]"
  by simp

text \<open>
  Claim C4, amended.  Alphabet iteration in the constructor and text iteration in \<open>draw\<close>
  go by Unicode code point.  For every code point of the alphabet the glyph table holds,
  under that code point as its single key, the glyph rasterized for it; the keys of the
  glyph table are exactly the code points of the alphabet and those of the location
  table are among them; and iterating that code point as a text yields that same key, so
  the loop of \<open>draw\<close> over it is the one step that looks this key up.
\<close>
theorem keys_are_code_points:
  assumes "SDFFont_new env tinySdf options = Some (Inr font)"
    and "c \<in> set (stringIterator (alphabet_of options))"
  shows "glyphs font c = Some (tinySdf module_fontSize (buffer font) (radius font) c)
     \<and> dom (glyphs font) = set (stringIterator (alphabet_of options))
     \<and> dom (glyphAtlasLocation font) \<subseteq> set (stringIterator (alphabet_of options))
     \<and> stringIterator c = [c]
     \<and> draw_loop font col iw ih tid (stringIterator c) this = draw_char font col iw ih tid c this"
proof -
  from assms(1) obtain elem where
    run: "rows_loop 0 0 0 (stringIterator (alphabet_of options))
         (font_before_packing elem tinySdf options) = Some (Inr font)"
    by (rule SDFFont_new_Inr)
  let ?cps = "stringIterator (alphabet_of options)"
  let ?f0 = "font_before_packing elem tinySdf options"
  from rows_loop_result [OF run] have st: "static_eq ?f0 font"
    and ex: "\<exists>n\<le>length ?cps. dom (glyphAtlasLocation font) =
        dom (glyphAtlasLocation ?f0) \<union> set (take n ?cps)"
    by blast+
  have g: "glyphs font = (\<lambda>c. if c \<in> set ?cps then Some (tinySdf module_fontSize 13 34 c) else None)"
    using st by (simp add: static_eq_def font_before_packing_glyphs)
  have b: "buffer font = 13" "radius font = 34"
    using st by (simp_all add: static_eq_def font_before_packing_fields)
  have 1: "glyphs font c = Some (tinySdf module_fontSize (buffer font) (radius font) c)"
    using assms(2) by (simp add: g b)
  have 2: "dom (glyphs font) = set ?cps"
    by (auto simp: g split: if_splits)
  from ex obtain n where "dom (glyphAtlasLocation font) = set (take n ?cps)"
    by (auto simp: font_before_packing_fields)
  then have 3: "dom (glyphAtlasLocation font) \<subseteq> set ?cps"
    by (auto dest: in_set_takeD)
  have 4: "stringIterator c = [c]"
    using assms(2) by (rule stringIterator_code_point)
  show ?thesis using 1 2 3 4 by simp
qed

theorem keys_are_code_points_witness:
  "\<exists>font. SDFFont_new test_env small_tinySdf
             \<lparr>opt_color = None, opt_alphabet = Some [0xD83C, 0xDFB6, 0x41], opt_fontSize = None\<rparr>
           = Some (Inr font)
     \<and> [0xD83C, 0xDFB6] \<in> set (stringIterator [0xD83C, 0xDFB6, 0x41])
     \<and> glyphs font [0xD83C, 0xDFB6] = Some (test_glyph 20 20)
     \<and> stringIterator [0xD83C, 0xDFB6] = [[0xD83C, 0xDFB6]]"
proof -
  let ?opts = "\<lparr>opt_color = None, opt_alphabet = Some [0xD83C, 0xDFB6, 0x41], opt_fontSize = None\<rparr>"
  obtain font where h1: "SDFFont_new test_env small_tinySdf ?opts = Some (Inr font)"
    by (simp add: eval_font small_tinySdf_def ceil_sqrt_eq [of 1])
  have h2: "[0xD83C, 0xDFB6] \<in> set (stringIterator (alphabet_of ?opts))"
    by (simp add: alphabet_of_def isHighSurrogate_def isLowSurrogate_def)
  have cps: "stringIterator (alphabet_of ?opts) = stringIterator [0xD83C, 0xDFB6, 0x41]"
    by (simp add: alphabet_of_def)
  from keys_are_code_points [OF h1 h2] h1 h2 cps show ?thesis
    by (auto simp: small_tinySdf_def)
qed

section \<open>The pixels of the atlas\<close>

lemma rgba_step_length [simp]: "length (rgba_step a i d) = length d"
  by (simp add: rgba_step_def)

lemma fold_rgba_length [simp]: "length (fold (rgba_step a) [0..<n] d) = length d"
  by (induction n) simp_all

lemma rgba_step_nth_same:
  "4 * n + 3 < length d \<Longrightarrow>
     rgba_step a n d ! (4 * n) = a ! n \<and> rgba_step a n d ! (4 * n + 1) = a ! n
     \<and> rgba_step a n d ! (4 * n + 2) = a ! n \<and> rgba_step a n d ! (4 * n + 3) = 255"
  by (simp add: rgba_step_def nth_list_update)

lemma rgba_step_nth_other:
  "m < 4 * n \<Longrightarrow> rgba_step a n d ! m = d ! m"
  by (simp add: rgba_step_def nth_list_update)

lemma fold_rgba_nth:
  "k < n \<Longrightarrow> 4 * k + 3 < length d \<Longrightarrow>
     fold (rgba_step a) [0..<n] d ! (4 * k) = a ! k
     \<and> fold (rgba_step a) [0..<n] d ! (4 * k + 1) = a ! k
     \<and> fold (rgba_step a) [0..<n] d ! (4 * k + 2) = a ! k
     \<and> fold (rgba_step a) [0..<n] d ! (4 * k + 3) = 255"
proof (induction n)
  case 0
  then show ?case by simp
next
  case (Suc n)
  show ?case
  proof (cases "k = n")
    case True
    then show ?thesis using Suc.prems rgba_step_nth_same [of n "fold (rgba_step a) [0..<n] d" a]
      by simp
  next
    case False
    then have kn: "k < n" using Suc.prems by simp
    from Suc.IH [OF kn Suc.prems(2)] kn show ?thesis
      by (simp add: rgba_step_nth_other)
  qed
qed

lemma rgba_image_fields:
  "0 < w \<Longrightarrow> 0 < h \<Longrightarrow>
     img_width (rgba_image d w h) = w \<and> img_height (rgba_image d w h) = h
     \<and> img_data (rgba_image d w h) = fold (rgba_step d) [0..<length d] (replicate (4 * w * h) 0)"
  by (simp add: rgba_image_def makeRGBAImageData_def new_ImageData_def)

lemma rgba_image_pixel:
  assumes "0 < w" "0 < h" "i < w" "j < h" "length d = w * h"
  shows "image_pixel (rgba_image d w h) i j =
           (d ! (j * w + i), d ! (j * w + i), d ! (j * w + i), 255)"
proof -
  have "j * w + i < Suc j * w" using assms(3) by simp
  also have "\<dots> \<le> h * w" using assms(4) by (intro mult_le_mono1) simp
  finally have k: "j * w + i < w * h" by (simp add: mult.commute)
  then have "4 * (j * w + i) + 3 < length (replicate (4 * w * h) (0::byte))" by simp
  from fold_rgba_nth [OF _ this, of "length d" d] k assms(5)
  show ?thesis
    using rgba_image_fields [OF assms(1,2), of d]
    by (simp add: image_pixel_def Let_def)
qed

lemma makeRGBAImageData_Inr:
  "makeRGBAImageData d w h = Inr img \<Longrightarrow> 0 < w \<and> 0 < h \<and> img = rgba_image d w h"
  by (cases "w = 0 \<or> h = 0") (auto simp: makeRGBAImageData_zero makeRGBAImageData_pos)

lemma atlas_inv_place:
  assumes inv: "atlas_inv y x mh this"
    and g: "glyphs this c = Some g"
    and img: "makeRGBAImageData (data g) (width g) (height g) = Inr img"
  shows "atlas_inv y (x + width g) (max mh (height g))
           (this\<lparr>atlasCanvas := putImageData (atlasCanvas this) img x y,
                 glyphAtlasLocation := (glyphAtlasLocation this)(c \<mapsto> (x, y))\<rparr>)"
proof -
  from makeRGBAImageData_Inr [OF img] have pos: "0 < width g" "0 < height g"
    and i: "img = rgba_image (data g) (width g) (height g)" by simp_all
  have iw: "img_width img = width g" "img_height img = height g"
    using rgba_image_fields [OF pos, of "data g"] i by simp_all
  have iw': "img_width (rgba_image (data g) (width g) (height g)) = width g"
    "img_height (rgba_image (data g) (width g) (height g)) = height g"
    using rgba_image_fields [OF pos, of "data g"] by simp_all
  show ?thesis
    unfolding atlas_inv_def
  proof (intro allI impI)
    fix c' px py g'
    assume l: "glyphAtlasLocation (this\<lparr>atlasCanvas := putImageData (atlasCanvas this) img x y,
                 glyphAtlasLocation := (glyphAtlasLocation this)(c \<mapsto> (x, y))\<rparr>) c' = Some (px, py)"
      and g': "glyphs (this\<lparr>atlasCanvas := putImageData (atlasCanvas this) img x y,
                 glyphAtlasLocation := (glyphAtlasLocation this)(c \<mapsto> (x, y))\<rparr>) c' = Some g'"
    show "(py + height g' \<le> y \<or> py = y \<and> px + width g' \<le> x + width g \<and> height g' \<le> max mh (height g)) \<and>
       (\<forall>i j. i < width g' \<longrightarrow> j < height g' \<longrightarrow>
          px + i < canvas_width (atlasCanvas (this\<lparr>atlasCanvas := putImageData (atlasCanvas this) img x y,
                 glyphAtlasLocation := (glyphAtlasLocation this)(c \<mapsto> (x, y))\<rparr>)) \<longrightarrow>
          py + j < canvas_height (atlasCanvas (this\<lparr>atlasCanvas := putImageData (atlasCanvas this) img x y,
                 glyphAtlasLocation := (glyphAtlasLocation this)(c \<mapsto> (x, y))\<rparr>)) \<longrightarrow>
          pixels (atlasCanvas (this\<lparr>atlasCanvas := putImageData (atlasCanvas this) img x y,
                 glyphAtlasLocation := (glyphAtlasLocation this)(c \<mapsto> (x, y))\<rparr>)) (px + i, py + j) =
            image_pixel (rgba_image (data g') (width g') (height g')) i j)"
    proof (cases "c' = c")
      case True
      with l g' g have eq: "px = x" "py = y" "g' = g" by simp_all
      show ?thesis
        by (simp add: eq putImageData_def i iw')
    next
      case False
      with l g' have l0: "glyphAtlasLocation this c' = Some (px, py)" and g0: "glyphs this c' = Some g'"
        by simp_all
      from inv [unfolded atlas_inv_def, rule_format, OF l0 g0]
      have reg: "py + height g' \<le> y \<or> (py = y \<and> px + width g' \<le> x \<and> height g' \<le> mh)"
        and pix: "\<And>i j. i < width g' \<Longrightarrow> j < height g' \<Longrightarrow>
               px + i < canvas_width (atlasCanvas this) \<Longrightarrow>
               py + j < canvas_height (atlasCanvas this) \<Longrightarrow>
               pixels (atlasCanvas this) (px + i, py + j) =
                 image_pixel (rgba_image (data g') (width g') (height g')) i j"
        by blast+
      have out: "\<And>i j. i < width g' \<Longrightarrow> j < height g' \<Longrightarrow>
          \<not> (x \<le> px + i \<and> px + i < x + img_width img \<and> y \<le> py + j \<and> py + j < y + img_height img)"
        using reg by auto
      show ?thesis
        using reg pix out by (auto simp: putImageData_def)
    qed
  qed
qed

lemma row_loop_atlas_inv:
  "atlas_inv y x mh this \<Longrightarrow> row_loop y x cs mh cps this = Inr (cs', mh', cps', this') \<Longrightarrow>
     \<exists>x'. atlas_inv y x' mh' this'"
proof (induction y x cs mh cps this rule: row_loop.induct)
  case (1 y x currentSize maxHeight this)
  then show ?case by auto
next
  case (2 y x currentSize maxHeight codePoint rest this)
  show ?case
  proof (cases "x + currentSize \<le> canvas_width (atlasCanvas this)")
    case False
    with "2.prems" show ?thesis by auto
  next
    case True
    from "2.prems" True obtain glyph where g: "glyphs this codePoint = Some glyph"
      by (auto split: option.splits)
    from "2.prems" True g obtain img where
      i: "makeRGBAImageData (data glyph) (width glyph) (height glyph) = Inr img"
      by (auto split: sum.splits)
    let ?this1 = "this\<lparr>atlasCanvas := putImageData (atlasCanvas this) img x y,
                          glyphAtlasLocation := (glyphAtlasLocation this)(codePoint \<mapsto> (x, y))\<rparr>"
    have rec: "row_loop y (x + width glyph) (width glyph) (max maxHeight (height glyph)) rest ?this1
        = Inr (cs', mh', cps', this')"
      using "2.prems" True g i by simp
    have "atlas_inv y (x + width glyph) (max maxHeight (height glyph)) ?this1"
      using "2.prems"(1) g i by (rule atlas_inv_place)
    from "2.IH" [OF True g i this rec] show ?thesis .
  qed
qed

lemma atlas_inv_next_row:
  assumes "atlas_inv y x mh this"
  shows "atlas_inv (y + mh) 0 0 this"
  unfolding atlas_inv_def
proof (intro allI impI)
  fix c px py g
  assume l: "glyphAtlasLocation this c = Some (px, py)" and g: "glyphs this c = Some g"
  from assms [unfolded atlas_inv_def, rule_format, OF l g]
  have reg: "py + height g \<le> y \<or> (py = y \<and> px + width g \<le> x \<and> height g \<le> mh)"
    and pix: "\<forall>i j. i < width g \<longrightarrow> j < height g \<longrightarrow>
               px + i < canvas_width (atlasCanvas this) \<longrightarrow>
               py + j < canvas_height (atlasCanvas this) \<longrightarrow>
               pixels (atlasCanvas this) (px + i, py + j) =
                 image_pixel (rgba_image (data g) (width g) (height g)) i j"
    by blast+
  from reg have "py + height g \<le> y + mh" by auto
  with pix show "(py + height g \<le> y + mh \<or> py = y + mh \<and> px + width g \<le> 0 \<and> height g \<le> 0) \<and>
       (\<forall>i j. i < width g \<longrightarrow> j < height g \<longrightarrow>
               px + i < canvas_width (atlasCanvas this) \<longrightarrow>
               py + j < canvas_height (atlasCanvas this) \<longrightarrow>
               pixels (atlasCanvas this) (px + i, py + j) =
                 image_pixel (rgba_image (data g) (width g) (height g)) i j)"
    by blast
qed

lemma rows_loop_atlas_inv:
  assumes "rows_loop y cs mh cps this = Some r"
  shows "atlas_inv y 0 0 this \<longrightarrow> (\<forall>font. r = Inr font \<longrightarrow> (\<exists>y' x' mh'. atlas_inv y' x' mh' font))"
proof (rule rows_loop.raw_induct
    [where P = "\<lambda>y cs mh cps this r. atlas_inv y 0 0 this \<longrightarrow>
       (\<forall>font. r = Inr font \<longrightarrow> (\<exists>y' x' mh'. atlas_inv y' x' mh' font))", OF _ assms],
    goal_cases)
  case (1 f y cs mh cps this r)
  show ?case
  proof (intro allI impI)
    fix font assume inv: "atlas_inv y 0 0 this" and r: "r = Inr font"
    show "\<exists>y' x' mh'. atlas_inv y' x' mh' font"
    proof (cases "y + mh \<le> canvas_height (atlasCanvas this) \<and> cps \<noteq> []")
      case False
      with 1(2) r have "font = this" by auto
      with inv show ?thesis by blast
    next
      case True
      show ?thesis
      proof (cases "row_loop y 0 cs 0 cps this")
        case (Inl e)
        with 1(2) True r show ?thesis by (simp add: Let_def)
      next
        case (Inr res)
        obtain cs' mh' cps' this' where res: "res = (cs', mh', cps', this')"
          by (cases res) auto
        from 1(2) True Inr res have call: "f (y + mh') cs' mh' cps' this' = Some r"
          by (simp add: Let_def)
        from row_loop_atlas_inv [OF inv Inr [unfolded res]] obtain x' where
          "atlas_inv y x' mh' this'" by blast
        then have "atlas_inv (y + mh') 0 0 this'" by (rule atlas_inv_next_row)
        with 1(1) [OF call] r show ?thesis by blast
      qed
    qed
  qed
qed

lemma atlas_inv_initial:
  "glyphAtlasLocation this = Map.empty \<Longrightarrow> atlas_inv 0 0 0 this"
  by (simp add: atlas_inv_def)

text \<open>
  The claim C5 as stated fails: a code point of the alphabet need not have an atlas
  location.  For the alphabet \<open>ABC\<close> (canvas side 252) and glyph bitmaps of 130 by 130,
  only \<open>A\<close> is placed; \<open>B\<close> and \<open>C\<close> are in the glyph table and have no location.
\<close>
theorem unplaced_glyphs_have_no_location:
  "\<exists>font. SDFFont_new test_env big_tinySdf
             \<lparr>opt_color = None, opt_alphabet = Some [0x41, 0x42, 0x43], opt_fontSize = None\<rparr>
           = Some (Inr font)
     \<and> [0x42] \<in> set (stringIterator [0x41, 0x42, 0x43])
     \<and> map (glyphAtlasLocation font) [[0x41], [0x42], [0x43]] = [Some (0, 0), None, None]
     \<and> map (map_option width \<circ> glyphs font) [[0x41], [0x42], [0x43]] = [Some 130, Some 130, Some 130]"
  by (simp add: eval_font big_tinySdf_def ceil_sqrt_eq [of 1])

text \<open>
  Claim C5, amended.  For every code point of the alphabet, after construction the glyph
  table holds its rasterized glyph.  The location table holds an entry for a prefix of
  the alphabet, those the packing loop reached before the canvas was full.  For a code
  point that has a location, whose bitmap has width times height bytes and whose
  rectangle lies within the canvas, the atlas pixels at the recorded rectangle are the
  bitmap byte for byte, as R = G = B = distance byte and A = 255.
\<close>
theorem atlas_lookup_roundtrip:
  assumes "SDFFont_new env tinySdf options = Some (Inr font)"
    and "c \<in> set (stringIterator (alphabet_of options))"
  shows "\<exists>g n. glyphs font c = Some g
     \<and> g = tinySdf module_fontSize (buffer font) (radius font) c
     \<and> dom (glyphAtlasLocation font) = set (take n (stringIterator (alphabet_of options)))
     \<and> (\<forall>x y. glyphAtlasLocation font c = Some (x, y) \<longrightarrow>
            length (data g) = width g * height g \<longrightarrow>
            x + width g \<le> canvas_width (atlasCanvas font) \<longrightarrow>
            y + height g \<le> canvas_height (atlasCanvas font) \<longrightarrow>
            (\<forall>i j. i < width g \<longrightarrow> j < height g \<longrightarrow>
               pixels (atlasCanvas font) (x + i, y + j) =
                 (data g ! (j * width g + i), data g ! (j * width g + i),
                  data g ! (j * width g + i), 255)))"
proof -
  from assms(1) obtain elem where
    run: "rows_loop 0 0 0 (stringIterator (alphabet_of options))
         (font_before_packing elem tinySdf options) = Some (Inr font)"
    by (rule SDFFont_new_Inr)
  let ?cps = "stringIterator (alphabet_of options)"
  let ?f0 = "font_before_packing elem tinySdf options"
  from rows_loop_result [OF run] have st: "static_eq ?f0 font"
    and ex: "\<exists>n\<le>length ?cps. dom (glyphAtlasLocation font) =
        dom (glyphAtlasLocation ?f0) \<union> set (take n ?cps)"
    by blast+
  from ex obtain n where dom: "dom (glyphAtlasLocation font) = set (take n ?cps)"
    by (auto simp: font_before_packing_fields)
  have b: "buffer font = 13" "radius font = 34"
    using st by (simp_all add: static_eq_def font_before_packing_fields)
  define g where "g = tinySdf module_fontSize (buffer font) (radius font) c"
  have gl: "glyphs font c = Some g"
    using st assms(2) by (simp add: static_eq_def font_before_packing_glyphs g_def b)
  have "atlas_inv 0 0 0 ?f0"
    by (rule atlas_inv_initial) (simp add: font_before_packing_fields)
  with rows_loop_atlas_inv [OF run] obtain y' x' mh' where inv: "atlas_inv y' x' mh' font"
    by blast
  have px: "pixels (atlasCanvas font) (x + i, y + j) =
                 (data g ! (j * width g + i), data g ! (j * width g + i),
                  data g ! (j * width g + i), 255)"
    if l: "glyphAtlasLocation font c = Some (x, y)"
      and len: "length (data g) = width g * height g"
      and inw: "x + width g \<le> canvas_width (atlasCanvas font)"
      and inh: "y + height g \<le> canvas_height (atlasCanvas font)"
      and i: "i < width g" and j: "j < height g" for x y i j
  proof -
    from inv [unfolded atlas_inv_def, rule_format, OF l gl]
    have "pixels (atlasCanvas font) (x + i, y + j) =
        image_pixel (rgba_image (data g) (width g) (height g)) i j"
      using i j inw inh by simp
    moreover have "0 < width g" "0 < height g" using i j by simp_all
    ultimately show ?thesis using rgba_image_pixel [OF _ _ i j len] by simp
  qed
  show ?thesis
    using gl dom px by (intro exI [of _ g] exI [of _ n]) (simp add: g_def)
qed

theorem atlas_lookup_roundtrip_witness:
  "\<exists>font. SDFFont_new test_env small_tinySdf
             \<lparr>opt_color = None, opt_alphabet = Some [0x41, 0x42], opt_fontSize = None\<rparr>
           = Some (Inr font)
     \<and> [0x42] \<in> set (stringIterator [0x41, 0x42])
     \<and> glyphs font [0x42] = Some (test_glyph 20 20)
     \<and> glyphAtlasLocation font [0x42] = Some (20, 0)
     \<and> length (data (test_glyph 20 20)) = width (test_glyph 20 20) * height (test_glyph 20 20)
     \<and> 20 + width (test_glyph 20 20) \<le> canvas_width (atlasCanvas font)
     \<and> 0 + height (test_glyph 20 20) \<le> canvas_height (atlasCanvas font)
     \<and> pixels (atlasCanvas font) (20 + 3, 0 + 4) = (128, 128, 128, 255)"
proof -
  let ?opts = "\<lparr>opt_color = None, opt_alphabet = Some [0x41, 0x42], opt_fontSize = None\<rparr>"
  obtain font where h1: "SDFFont_new test_env small_tinySdf ?opts = Some (Inr font)"
    and loc: "glyphAtlasLocation font [0x42] = Some (20, 0)"
    and cw: "canvas_width (atlasCanvas font) = 252" "canvas_height (atlasCanvas font) = 252"
    by (simp add: eval_font small_tinySdf_def ceil_sqrt_eq [of 1])
  have h2: "[0x42] \<in> set (stringIterator (alphabet_of ?opts))"
    by (simp add: alphabet_of_def isHighSurrogate_def isLowSurrogate_def)
  have mem: "[0x42] \<in> set (stringIterator [0x41, 0x42 :: code_unit])"
    by (simp add: isHighSurrogate_def isLowSurrogate_def)
  from atlas_lookup_roundtrip [OF h1 h2] obtain g where
    g: "glyphs font [0x42] = Some g" "g = small_tinySdf module_fontSize (buffer font) (radius font) [0x42]"
    and px: "\<forall>x y. glyphAtlasLocation font [0x42] = Some (x, y) \<longrightarrow>
            length (data g) = width g * height g \<longrightarrow>
            x + width g \<le> canvas_width (atlasCanvas font) \<longrightarrow>
            y + height g \<le> canvas_height (atlasCanvas font) \<longrightarrow>
            (\<forall>i j. i < width g \<longrightarrow> j < height g \<longrightarrow>
               pixels (atlasCanvas font) (x + i, y + j) =
                 (data g ! (j * width g + i), data g ! (j * width g + i),
                  data g ! (j * width g + i), 255))"
    by blast
  have geq: "g = test_glyph 20 20" using g(2) by (simp add: small_tinySdf_def)
  have "pixels (atlasCanvas font) (20 + 3, 0 + 4) =
      (data g ! (4 * width g + 3), data g ! (4 * width g + 3), data g ! (4 * width g + 3), 255)"
    using px [rule_format, OF loc, of 3 4] cw by (simp add: geq test_glyph_def)
  then have "pixels (atlasCanvas font) (20 + 3, 0 + 4) = (128, 128, 128, 255)"
    by (simp add: geq test_glyph_def)
  with h1 mem g(1) geq loc cw show ?thesis
    by (intro exI [of _ font]) (simp add: test_glyph_def)
qed

section \<open>Placement of the glyphs in the atlas\<close>

lemma rects_disjoint_sym: "rects_disjoint p1 g1 p2 g2 \<Longrightarrow> rects_disjoint p2 g2 p1 g1"
  by (auto simp: rects_disjoint_def)

lemma atlas_inv_region:
  "atlas_inv y x mh this \<Longrightarrow> glyphAtlasLocation this c = Some (px, py) \<Longrightarrow>
   glyphs this c = Some g \<Longrightarrow>
     py + height g \<le> y \<or> (py = y \<and> px + width g \<le> x \<and> height g \<le> mh)"
  unfolding atlas_inv_def by blast

lemma disjoint_inv_place:
  assumes inv: "atlas_inv y x mh this" and dis: "disjoint_inv this"
    and g: "glyphs this c = Some g"
  shows "disjoint_inv (this\<lparr>atlasCanvas := cv,
                 glyphAtlasLocation := (glyphAtlasLocation this)(c \<mapsto> (x, y))\<rparr>)"
  unfolding disjoint_inv_def
proof (intro allI impI)
  fix c1 c2 p1 p2 g1 g2
  let ?this1 = "this\<lparr>atlasCanvas := cv,
                 glyphAtlasLocation := (glyphAtlasLocation this)(c \<mapsto> (x, y))\<rparr>"
  assume ne: "c1 \<noteq> c2"
    and l1: "glyphAtlasLocation ?this1 c1 = Some p1" and l2: "glyphAtlasLocation ?this1 c2 = Some p2"
    and g1: "glyphs ?this1 c1 = Some g1" and g2: "glyphs ?this1 c2 = Some g2"
  have new: "rects_disjoint (x, y) g (px, py) g'"
    if "glyphAtlasLocation this c' = Some (px, py)" "glyphs this c' = Some g'" for c' px py g'
    using atlas_inv_region [OF inv that] by (auto simp: rects_disjoint_def)
  show "rects_disjoint p1 g1 p2 g2"
  proof (cases "c1 = c")
    case True
    with ne l1 l2 g1 g2 g have "p1 = (x, y)" "g1 = g"
      "glyphAtlasLocation this c2 = Some p2" "glyphs this c2 = Some g2" by auto
    then show ?thesis using new [of c2 "fst p2" "snd p2" g2] by simp
  next
    case False
    show ?thesis
    proof (cases "c2 = c")
      case True
      with ne l1 l2 g1 g2 g have "p2 = (x, y)" "g2 = g"
        "glyphAtlasLocation this c1 = Some p1" "glyphs this c1 = Some g1" by auto
      then show ?thesis using new [of c1 "fst p1" "snd p1" g1] by (simp add: rects_disjoint_sym)
    next
      case c2: False
      with False l1 l2 g1 g2 have "glyphAtlasLocation this c1 = Some p1"
        "glyphAtlasLocation this c2 = Some p2" "glyphs this c1 = Some g1" "glyphs this c2 = Some g2"
        by auto
      with dis ne show ?thesis unfolding disjoint_inv_def by blast
    qed
  qed
qed

lemma row_loop_disjoint_inv:
  "atlas_inv y x mh this \<Longrightarrow> disjoint_inv this \<Longrightarrow>
   row_loop y x cs mh cps this = Inr (cs', mh', cps', this') \<Longrightarrow> disjoint_inv this'"
proof (induction y x cs mh cps this rule: row_loop.induct)
  case (1 y x currentSize maxHeight this)
  then show ?case by auto
next
  case (2 y x currentSize maxHeight codePoint rest this)
  show ?case
  proof (cases "x + currentSize \<le> canvas_width (atlasCanvas this)")
    case False
    with "2.prems" show ?thesis by auto
  next
    case True
    from "2.prems" True obtain glyph where g: "glyphs this codePoint = Some glyph"
      by (auto split: option.splits)
    from "2.prems" True g obtain img where
      i: "makeRGBAImageData (data glyph) (width glyph) (height glyph) = Inr img"
      by (auto split: sum.splits)
    let ?this1 = "this\<lparr>atlasCanvas := putImageData (atlasCanvas this) img x y,
                          glyphAtlasLocation := (glyphAtlasLocation this)(codePoint \<mapsto> (x, y))\<rparr>"
    have rec: "row_loop y (x + width glyph) (width glyph) (max maxHeight (height glyph)) rest ?this1
        = Inr (cs', mh', cps', this')"
      using "2.prems" True g i by simp
    have a: "atlas_inv y (x + width glyph) (max maxHeight (height glyph)) ?this1"
      using "2.prems"(1) g i by (rule atlas_inv_place)
    have d: "disjoint_inv ?this1"
      using "2.prems"(1,2) g by (rule disjoint_inv_place)
    from "2.IH" [OF True g i a d rec] show ?thesis .
  qed
qed

lemma rows_loop_disjoint_inv:
  assumes "rows_loop y cs mh cps this = Some r"
  shows "atlas_inv y 0 0 this \<and> disjoint_inv this \<longrightarrow> (\<forall>font. r = Inr font \<longrightarrow> disjoint_inv font)"
proof (rule rows_loop.raw_induct
    [where P = "\<lambda>y cs mh cps this r. atlas_inv y 0 0 this \<and> disjoint_inv this \<longrightarrow>
       (\<forall>font. r = Inr font \<longrightarrow> disjoint_inv font)", OF _ assms],
    goal_cases)
  case (1 f y cs mh cps this r)
  show ?case
  proof (intro allI impI)
    fix font assume inv: "atlas_inv y 0 0 this \<and> disjoint_inv this" and r: "r = Inr font"
    show "disjoint_inv font"
    proof (cases "y + mh \<le> canvas_height (atlasCanvas this) \<and> cps \<noteq> []")
      case False
      with 1(2) r have "font = this" by auto
      with inv show ?thesis by blast
    next
      case True
      show ?thesis
      proof (cases "row_loop y 0 cs 0 cps this")
        case (Inl e)
        with 1(2) True r show ?thesis by (simp add: Let_def)
      next
        case (Inr res)
        obtain cs' mh' cps' this' where res: "res = (cs', mh', cps', this')"
          by (cases res) auto
        from 1(2) True Inr res have call: "f (y + mh') cs' mh' cps' this' = Some r"
          by (simp add: Let_def)
        from inv have a0: "atlas_inv y 0 0 this" and d0: "disjoint_inv this" by simp_all
        from row_loop_atlas_inv [OF a0 Inr [unfolded res]] obtain x' where
          "atlas_inv y x' mh' this'" by blast
        then have a: "atlas_inv (y + mh') 0 0 this'" by (rule atlas_inv_next_row)
        have d: "disjoint_inv this'"
          using a0 d0 Inr [unfolded res] by (rule row_loop_disjoint_inv)
        from 1(1) [OF call] a d r show ?thesis by blast
      qed
    qed
  qed
qed

text \<open>
  The rectangles of any two code points of a constructed font do not overlap, whatever
  the widths and heights.
\<close>
lemma atlas_rectangles_disjoint:
  assumes "SDFFont_new env tinySdf options = Some (Inr font)"
    and "c1 \<noteq> c2"
    and "glyphAtlasLocation font c1 = Some p1" "glyphAtlasLocation font c2 = Some p2"
    and "glyphs font c1 = Some g1" "glyphs font c2 = Some g2"
  shows "rects_disjoint p1 g1 p2 g2"
proof -
  from assms(1) obtain elem where
    run: "rows_loop 0 0 0 (stringIterator (alphabet_of options))
         (font_before_packing elem tinySdf options) = Some (Inr font)"
    by (rule SDFFont_new_Inr)
  let ?f0 = "font_before_packing elem tinySdf options"
  have "atlas_inv 0 0 0 ?f0"
    by (rule atlas_inv_initial) (simp add: font_before_packing_fields)
  moreover have "disjoint_inv ?f0"
    by (simp add: disjoint_inv_def font_before_packing_fields)
  ultimately have "disjoint_inv font"
    using rows_loop_disjoint_inv [OF run] by blast
  with assms(2-) show ?thesis unfolding disjoint_inv_def by blast
qed

text \<open>
  Claim C1.  The claim: every glyph's rectangle is disjoint from the others and lies
  within the canvas, also for mixed widths.  The inner loop tests \<open>x + currentSize\<close>, the
  width of the glyph placed before, against the canvas width, not the width of the glyph
  it is about to place.  For the alphabet \<open>ABCDEFGHW\<close> (canvas side 378), eight glyphs 40
  wide and \<open>W\<close> 100 wide, every glyph is placed in the first row and \<open>W\<close> lands at
  \<open>x = 320\<close>: its rectangle ends at 420, outside the canvas.  Only the containment half
  of the claim fails; the rectangles are disjoint by the lemma above.
\<close>
theorem glyph_placed_outside_canvas:
  "\<exists>font. SDFFont_new test_env mixed_tinySdf
             \<lparr>opt_color = None,
              opt_alphabet = Some [0x41, 0x42, 0x43, 0x44, 0x45, 0x46, 0x47, 0x48, 0x57],
              opt_fontSize = None\<rparr>
           = Some (Inr font)
     \<and> canvas_width (atlasCanvas font) = 378
     \<and> map (glyphAtlasLocation font)
          [[0x41], [0x42], [0x43], [0x44], [0x45], [0x46], [0x47], [0x48], [0x57]]
        = [Some (0, 0), Some (40, 0), Some (80, 0), Some (120, 0), Some (160, 0),
           Some (200, 0), Some (240, 0), Some (280, 0), Some (320, 0)]
     \<and> map_option width (glyphs font [0x57]) = Some 100
     \<and> canvas_width (atlasCanvas font) < 320 + 100"
  by (simp add: eval_font mixed_tinySdf_def ceil_sqrt_eq [of 2])

section \<open>The batch renderer\<close>

text \<open>
  The font \<open>atlas_font i\<close> used in the examples is, but for the pixels of its canvas, the
  font the constructor builds for the alphabet \<open>a\<close> on the canvas element \<open>i\<close>.
\<close>
lemma atlas_font_constructed:
  "\<exists>font. SDFFont_new \<lparr>createElement_canvas = Some i, getContext_2d = True\<rparr> small_tinySdf
             \<lparr>opt_color = None, opt_alphabet = Some [0x61], opt_fontSize = None\<rparr>
           = Some (Inr font)
     \<and> glyphs font = glyphs (atlas_font i)
     \<and> glyphAtlasLocation font = glyphAtlasLocation (atlas_font i)
     \<and> element_id (atlasCanvas font) = element_id (atlasCanvas (atlas_font i))
     \<and> canvas_width (atlasCanvas font) = canvas_width (atlasCanvas (atlas_font i))
     \<and> canvas_height (atlasCanvas font) = canvas_height (atlasCanvas (atlas_font i))
     \<and> color font = color (atlas_font i) \<and> fontSize font = fontSize (atlas_font i)
     \<and> size_px font = size_px (atlas_font i) \<and> buffer font = buffer (atlas_font i)
     \<and> radius font = radius (atlas_font i)"
  by (simp add: eval_font small_tinySdf_def atlas_font_def ceil_sqrt_eq [of 0])



lemma emitted_flush: "emitted (flush this) = emitted this"
  by (simp add: emitted_def flush_def)

lemma flush_fields [simp]:
  "maxImages (flush this) = maxImages this"
  "maxTextures (flush this) = maxTextures this"
  "sdfGamma (flush this) = sdfGamma this"
  "sdfHalo (flush this) = sdfHalo this"
  by (simp_all add: flush_def)


lemma draw_char_absent:
  "\<not> present font char \<Longrightarrow>
     draw_char font col iw ih tid char this = (if isFull this then flush this else this)"
  by (auto simp: present_def draw_char_def Let_def split: option.splits)





lemma quad_key_quad_for [simp]:
  "quad_key (Some (quad_for font col iw ih tid c)) = Some (element_id (atlasCanvas font), c)"
  by (simp add: quad_key_def quad_for_def Let_def split: prod.splits)










section \<open>Texture slots\<close>

text \<open>
  \<open>initialize\<close> leaves the renderer of the field initialisers with \<open>_maxTextures\<close> the first
  branch count, halving down from the hardware limit, whose test shader compiles.
\<close>
lemma getMaxShaderComplexity_le:
  assumes "getMaxShaderComplexity gl numIfs = Some k"
  shows "k \<le> numIfs \<and> canCompile gl k"
proof (rule getMaxShaderComplexity.raw_induct
    [where P = "\<lambda>gl numIfs k. k \<le> numIfs \<and> canCompile gl k", OF _ assms], goal_cases)
  case (1 f gl numIfs k)
  show ?case
  proof (cases "canCompile gl numIfs")
    case True
    with 1(2) show ?thesis by simp
  next
    case False
    with 1(2) have "f gl (numIfs div 2) = Some k" by simp
    from 1(1) [OF this] show ?thesis by (simp add: le_div_geq) (meson div_le_dividend le_trans)
  qed
qed

lemma initialize_maxTextures:
  assumes "initialize gl = Some this"
  shows "this = SDFTextRenderer_new (maxTextures this)
     \<and> maxTextures this \<le> MAX_TEXTURE_IMAGE_UNITS gl \<and> canCompile gl (maxTextures this)"
proof -
  from assms obtain k where k: "getMaxShaderComplexity gl (MAX_TEXTURE_IMAGE_UNITS gl) = Some k"
    and t: "this = SDFTextRenderer_new (min (MAX_TEXTURE_IMAGE_UNITS gl) k)"
    by (auto simp: initialize_def Let_def split: option.splits)
  from getMaxShaderComplexity_le [OF k] have "min (MAX_TEXTURE_IMAGE_UNITS gl) k = k" by simp
  with t getMaxShaderComplexity_le [OF k] show ?thesis
    by (simp add: SDFTextRenderer_new_def)
qed

lemma initialize_sixteen_units:
  "initialize \<lparr>MAX_TEXTURE_IMAGE_UNITS = 16, canCompile = (\<lambda>n. True)\<rparr> = Some (SDFTextRenderer_new 16)"
  by (simp add: initialize_def getMaxShaderComplexity.simps)

text \<open>
  Claim C7.  The claim: without an explicit flush the number of atlas images holding a
  texture slot never exceeds \<open>maxTextures\<close>.  The flush that \<open>draw\<close> forces when the slots
  are full returns early when no quad is pending, and then resets nothing.  With 16
  texture units, 17 draws of 17 fonts with an empty text leave 17 textures in the table,
  the last at slot 16, and no draw call was issued.
\<close>
theorem texture_slots_exceed_maxTextures:
  "let this = run_calls (map (\<lambda>i. Draw (atlas_font i) [] None) [0..<17]) (SDFTextRenderer_new 16)
   in maxTextures this = 16
      \<and> length (textures this) = 17
      \<and> distinct (textures this)
      \<and> getTextureIdForImage (atlasCanvas (atlas_font 16)) this = 16
      \<and> drawCalls this = []"
  by (simp add: eval_draw upt_rec)

text \<open>
  Claim C8.  The claim: every quad in the buffer when a flush executes has a texture
  slot that is populated at that flush, also after a mid-string flush.  \<open>draw\<close> assigns
  the slot once, before its loop; a flush inside the loop clears the slot table and the
  loop goes on writing the old slot index.  With 16 texture units and 16 fonts each
  drawing \<open>a\<close>, the sixteenth draw fills the last slot, its first character flushes the
  15 pending quads and clears the table, and its quad, written with slot 15, is flushed
  with no texture bound to any unit.
\<close>
theorem quad_flushed_with_unbound_slot:
  "let this = run_calls (map (\<lambda>i. Draw (atlas_font i) [0x61] None) [0..<16] @ [Flush])
                (SDFTextRenderer_new 16)
   in length (drawCalls this) = 2
      \<and> map (map_option q_textureId) (sub_quads (last (drawCalls this))) = [Some 15]
      \<and> map (map_option q_image) (sub_quads (last (drawCalls this))) = [Some 15]
      \<and> sub_textures (last (drawCalls this)) =
          [None, None, None, None, None, None, None, None,
           None, None, None, None, None, None, None, None]"
  by (simp add: eval_draw upt_rec)

section \<open>Characters the font does not have\<close>

text \<open>
  The claim C9 as stated fails in one point, the quad count.  The loop of \<open>draw\<close> tests
  \<open>_isFull\<close> and flushes before it looks the glyph up, so a character without a glyph,
  met when the batch is full, flushes the batch.  With 16 texture units and 15 quads of
  15 fonts pending, drawing the empty text with a sixteenth font leaves the count at 15,
  and drawing the one character \<open>?\<close>, absent from its glyph table, leaves it at 0.
\<close>
theorem missing_glyph_flushes_full_batch:
  "let this = run_calls (map (\<lambda>i. Draw (atlas_font i) [0x61] None) [0..<15]) (SDFTextRenderer_new 16)
   in glyphs (atlas_font 15) [0x3F] = None
      \<and> imageCount this = 15
      \<and> imageCount (draw (atlas_font 15) [] None this) = 15
      \<and> imageCount (draw (atlas_font 15) [0x3F] None this) = 0"
  by (simp add: eval_draw upt_rec)

text \<open>
  Claim C9, amended.  A character absent from the font's glyph table is skipped: the
  iteration is only the capacity check, so no quad is written for it, nothing is raised,
  and the loop goes on with the remaining characters.  The quads handed to the renderer
  are unchanged.  The quad count is unchanged by the character unless the batch is full
  when it is met; then the automatic flush submits the pending quads and the count is 0.
\<close>
theorem missing_glyph_is_skipped:
  assumes "glyphs font char = None"
  shows "draw_char font col iw ih tid char this = (if isFull this then flush this else this)
     \<and> draw_loop font col iw ih tid (char # rest) this =
         draw_loop font col iw ih tid rest (if isFull this then flush this else this)
     \<and> emitted (draw_char font col iw ih tid char this) = emitted this
     \<and> (if isFull this then imageCount (draw_char font col iw ih tid char this) = 0
         else imageCount (draw_char font col iw ih tid char this) = imageCount this)"
proof -
  have "\<not> present font char" using assms by (simp add: present_def)
  then have dc: "draw_char font col iw ih tid char this = (if isFull this then flush this else this)"
    by (rule draw_char_absent)
  have em: "emitted (draw_char font col iw ih tid char this) = emitted this"
    by (simp add: dc emitted_flush)
  have cnt: "if isFull this then imageCount (draw_char font col iw ih tid char this) = 0
         else imageCount (draw_char font col iw ih tid char this) = imageCount this"
    by (simp add: dc flush_def)
  show ?thesis using dc em cnt by simp
qed

theorem missing_glyph_is_skipped_witness:
  "glyphs (atlas_font 0) [0x3F] = None
   \<and> draw_char (atlas_font 0) Color_Black 126 126 0 [0x3F] (SDFTextRenderer_new 16)
       = SDFTextRenderer_new 16
   \<and> imageCount (draw_char (atlas_font 0) Color_Black 126 126 0 [0x3F] (SDFTextRenderer_new 16)) = 0"
proof -
  have h: "glyphs (atlas_font 0) [0x3F] = None" by (simp add: atlas_font_def)
  have nf: "\<not> isFull (SDFTextRenderer_new 16)" by (simp add: isFull_def SDFTextRenderer_new_def)
  from missing_glyph_is_skipped [OF h, of Color_Black 126 126 0 "SDFTextRenderer_new 16"] h nf
  show ?thesis by (simp add: SDFTextRenderer_new_def)
qed

end
